theory Spec2Isabelle
  imports Complex_Main "HOL-Library.Sublist"
begin

section \<open>JavaScript numbers\<close>

text \<open>
  A JavaScript number is a binary64 value: a finite value, one of the two zeros, one of
  the two infinities, or \<open>NaN\<close>.  \<open>Finite r\<close> stands for the finite value \<open>r\<close> (with
  \<open>Finite 0\<close> the positive zero); the numbers of the source are those whose \<open>r\<close> is
  representable in binary64, and rounding returns only such numbers.
\<close>

datatype number = Finite rat | NegZero | PosInf | NegInf | NaN

definition signBit :: "number \<Rightarrow> bool" where
  "signBit x = (case x of Finite r \<Rightarrow> r < 0 | NegZero \<Rightarrow> True | PosInf \<Rightarrow> False
                | NegInf \<Rightarrow> True | NaN \<Rightarrow> False)"

definition isZero :: "number \<Rightarrow> bool" where
  "isZero x = (x = Finite 0 \<or> x = NegZero)"

definition isInf :: "number \<Rightarrow> bool" where
  "isInf x = (x = PosInf \<or> x = NegInf)"

definition valueOf :: "number \<Rightarrow> rat" where
  "valueOf x = (case x of Finite r \<Rightarrow> r | _ \<Rightarrow> 0)"

definition signedZero :: "bool \<Rightarrow> number" where
  "signedZero neg = (if neg then NegZero else Finite 0)"

definition signedInf :: "bool \<Rightarrow> number" where
  "signedInf neg = (if neg then NegInf else PosInf)"

text \<open>
  Rounding to nearest, ties to even.  A magnitude \<open>a\<close> is scaled by a power of two to
  \<open>q\<close> with \<open>2^52 \<le> q < 2^53\<close> (the 53 bits of a normal significand), the exponent staying
  within \<open>-1074\<close> (where the subnormal values begin) and \<open>971\<close>; \<open>q\<close> is rounded to an
  integer, and the result overflows to an infinity from \<open>2^1024\<close> on.
\<close>

function normDown :: "rat \<Rightarrow> int \<Rightarrow> rat \<times> int" where
  "normDown a e = (if e \<le> - 1074 \<or> 2 ^ 52 \<le> a then (a, e) else normDown (2 * a) (e - 1))"
  by pat_completeness auto
termination
  by (relation "measure (\<lambda>(a, e). nat (e + 1074))") auto

function normUp :: "rat \<Rightarrow> int \<Rightarrow> rat \<times> int" where
  "normUp a e = (if 971 \<le> e \<or> a < 2 ^ 53 then (a, e) else normUp (a / 2) (e + 1))"
  by pat_completeness auto
termination
  by (relation "measure (\<lambda>(a, e). nat (971 - e))") auto

declare normDown.simps [simp del] normUp.simps [simp del]

definition normalize64 :: "rat \<Rightarrow> rat \<times> int" where
  "normalize64 a = (if a < 2 ^ 52 then normDown a 0 else normUp a 0)"

definition roundHalfEven :: "rat \<Rightarrow> int" where
  "roundHalfEven q =
     (let f = \<lfloor>q\<rfloor>; r = q - of_int f
      in if r < 1 / 2 then f else if 1 / 2 < r then f + 1
         else if even f then f else f + 1)"

definition round64 :: "bool \<Rightarrow> rat \<Rightarrow> number" where
  "round64 neg a =
     (case normalize64 a of (q, e) \<Rightarrow>
        let r = of_int (roundHalfEven q) * 2 powi e
        in if 2 ^ 1024 \<le> r then signedInf neg
           else if r = 0 then signedZero neg
           else Finite (if neg then - r else r))"

definition roundRat :: "rat \<Rightarrow> number" where
  "roundRat x = round64 (x < 0) \<bar>x\<bar>"

text \<open>The operators \<open>+\<close>, unary \<open>-\<close>, \<open>-\<close>, \<open>*\<close> and \<open>/\<close> on numbers.\<close>

definition jsAdd :: "number \<Rightarrow> number \<Rightarrow> number" where
  "jsAdd x y =
     (if x = NaN \<or> y = NaN then NaN
      else if isInf x then (if isInf y \<and> x \<noteq> y then NaN else x)
      else if isInf y then y
      else if valueOf x + valueOf y = 0
           then signedZero (signBit x \<and> signBit y)
           else roundRat (valueOf x + valueOf y))"

definition jsNeg :: "number \<Rightarrow> number" where
  "jsNeg x = (case x of Finite r \<Rightarrow> (if r = 0 then NegZero else Finite (- r))
               | NegZero \<Rightarrow> Finite 0 | PosInf \<Rightarrow> NegInf | NegInf \<Rightarrow> PosInf | NaN \<Rightarrow> NaN)"

definition jsSub :: "number \<Rightarrow> number \<Rightarrow> number" where
  "jsSub x y = jsAdd x (jsNeg y)"

definition jsMul :: "number \<Rightarrow> number \<Rightarrow> number" where
  "jsMul x y =
     (if x = NaN \<or> y = NaN then NaN
      else if isInf x \<or> isInf y
           then (if isZero x \<or> isZero y then NaN else signedInf (signBit x \<noteq> signBit y))
           else round64 (signBit x \<noteq> signBit y) (\<bar>valueOf x\<bar> * \<bar>valueOf y\<bar>))"

definition jsDiv :: "number \<Rightarrow> number \<Rightarrow> number" where
  "jsDiv x y =
     (if x = NaN \<or> y = NaN then NaN
      else if isInf x then (if isInf y then NaN else signedInf (signBit x \<noteq> signBit y))
      else if isInf y then signedZero (signBit x \<noteq> signBit y)
      else if isZero y then (if isZero x then NaN else signedInf (signBit x \<noteq> signBit y))
      else round64 (signBit x \<noteq> signBit y) (\<bar>valueOf x\<bar> / \<bar>valueOf y\<bar>))"

text \<open>The comparisons \<open><\<close>, \<open><=\<close> and \<open>!==\<close> on numbers, and \<open>Math.max\<close> of two numbers.\<close>

definition jsLess :: "number \<Rightarrow> number \<Rightarrow> bool" where
  "jsLess x y =
     (if x = NaN \<or> y = NaN then False
      else if x = PosInf \<or> y = NegInf then False
      else if x = NegInf \<or> y = PosInf then True
      else valueOf x < valueOf y)"

definition jsLessEq :: "number \<Rightarrow> number \<Rightarrow> bool" where
  "jsLessEq x y = (x \<noteq> NaN \<and> y \<noteq> NaN \<and> \<not> jsLess y x)"

definition jsStrictNeq :: "number \<Rightarrow> number \<Rightarrow> bool" where
  "jsStrictNeq x y =
     (if x = NaN \<or> y = NaN then True
      else if isZero x \<and> isZero y then False
      else x \<noteq> y)"

definition mathMax :: "number \<Rightarrow> number \<Rightarrow> number" where
  "mathMax x y =
     (if x = NaN \<or> y = NaN then NaN
      else if jsLess x y then y
      else if jsLess y x then x
      else if isZero x \<and> isZero y then signedZero (signBit x \<and> signBit y)
      else x)"

text \<open>The number that an integer denotes (an integer column read back, an integer literal).\<close>

definition numOfInt :: "int \<Rightarrow> number" where
  "numOfInt i = roundRat (of_int i)"

section \<open>Data model of the order service\<close>

text \<open>
  The order service (class \<open>OrderService\<close>) works on rows of the relational store
  through the ORM client.  The rows are records, the enums of the schema are datatypes,
  and the store is a record of tables that every operation takes and returns.

  Amounts of the source (\<open>price\<close>, \<open>total\<close>, \<open>discount\<close>) are JavaScript numbers, that
  is IEEE 754 binary64 values; they have the type \<open>number\<close> of the section above, whose
  operations round as the source's do.  Integer columns (\<open>quantity\<close>, \<open>usageLimit\<close>,
  \<open>usageCount\<close>) are \<open>int\<close>, instants (\<open>expiresAt\<close>, \<open>new Date()\<close>, \<open>Date.now()\<close>) are
  milliseconds as \<open>nat\<close>.
\<close>

datatype OrderStatus =
  PENDING | CONFIRMED | PROCESSING | SHIPPED | DELIVERED | CANCELLED | REFUNDED

datatype Role = USER | SELLER | ADMIN | FOUNDER

datatype DiscountType = PERCENTAGE | FIXED

text \<open>
  \<open>createError(message, statusCode)\<close> builds the errors the service throws.  A failure
  of the store itself (a rejected write) is \<open>PrismaError\<close>; dereferencing a missing
  relation is \<open>TypeError\<close>.
\<close>

datatype error = AppError string nat | PrismaError | TypeError

definition createError :: "string \<Rightarrow> nat \<Rightarrow> error" where
  "createError message statusCode = AppError message statusCode"

text \<open>The error taxonomy of the specification, read off the status code.\<close>

fun NotFound :: "error \<Rightarrow> bool" where
  "NotFound (AppError m c) = (c = 404)"
| "NotFound _ = False"

fun InvalidState :: "error \<Rightarrow> bool" where
  "InvalidState (AppError m c) = (c = 400)"
| "InvalidState _ = False"

fun AccessDenied :: "error \<Rightarrow> bool" where
  "AccessDenied (AppError m c) = (c = 403)"
| "AccessDenied _ = False"

fun errorMessage :: "error \<Rightarrow> string" where
  "errorMessage (AppError m c) = m"
| "errorMessage PrismaError = []"
| "errorMessage TypeError = []"

record CartItem =
  productId :: string
  quantity :: int
  price :: number

record Cart =
  items :: "CartItem list"
  cartTotal :: number

record User =
  role :: Role
  cart :: "Cart option"

record Product =
  p_storeId :: string
  p_price :: number
  inStock :: bool
  p_name :: string

record Store =
  ownerId :: string

record Coupon =
  discount :: number
  discountType :: DiscountType
  isActive :: bool
  expiresAt :: nat
  usageLimit :: int
  usageCount :: int

record Order =
  o_id :: string
  orderNumber :: string
  total :: number
  status :: OrderStatus
  userId :: string
  storeId :: string
  paymentMethod :: string
  isCouponUsed :: bool
  coupon :: "string option"

record OrderItem =
  orderId :: string
  oi_productId :: string
  oi_quantity :: int
  oi_price :: number

text \<open>
  The tables.  Users, products and stores are keyed by their id, coupons by their unique
  code; orders and order items are lists in insertion order.
\<close>

record db =
  users :: "string \<rightharpoonup> User"
  products :: "string \<rightharpoonup> Product"
  stores :: "string \<rightharpoonup> Store"
  coupons :: "string \<rightharpoonup> Coupon"
  orders :: "Order list"
  orderItems :: "OrderItem list"

section \<open>Order status transitions\<close>

text \<open>The table \<open>validTransitions\<close> of \<open>updateOrderStatus\<close>.\<close>

fun validTransitions :: "OrderStatus \<Rightarrow> OrderStatus list" where
  "validTransitions PENDING = [CONFIRMED, CANCELLED]"
| "validTransitions CONFIRMED = [PROCESSING, CANCELLED]"
| "validTransitions PROCESSING = [SHIPPED, CANCELLED]"
| "validTransitions SHIPPED = [DELIVERED]"
| "validTransitions DELIVERED = [REFUNDED]"
| "validTransitions CANCELLED = []"
| "validTransitions REFUNDED = []"

text \<open>How a status prints inside a template string.\<close>

fun statusName :: "OrderStatus \<Rightarrow> string" where
  "statusName PENDING = ''PENDING''"
| "statusName CONFIRMED = ''CONFIRMED''"
| "statusName PROCESSING = ''PROCESSING''"
| "statusName SHIPPED = ''SHIPPED''"
| "statusName DELIVERED = ''DELIVERED''"
| "statusName CANCELLED = ''CANCELLED''"
| "statusName REFUNDED = ''REFUNDED''"

text \<open>
  \<open>prisma.order.findUnique({ where: { id } })\<close>, and \<open>prisma.order.update\<close> of the status:
  the row that \<open>findUnique\<close> returns is the row that is written.
\<close>

definition findOrder :: "db \<Rightarrow> string \<Rightarrow> Order option" where
  "findOrder d oid = find (\<lambda>r. o_id r = oid) (orders d)"

fun updateStatusRow :: "string \<Rightarrow> OrderStatus \<Rightarrow> Order list \<Rightarrow> Order list" where
  "updateStatusRow oid s [] = []"
| "updateStatusRow oid s (r # rs) =
     (if o_id r = oid then r\<lparr>status := s\<rparr> # rs else r # updateStatusRow oid s rs)"

definition setStatus :: "string \<Rightarrow> OrderStatus \<Rightarrow> db \<Rightarrow> db" where
  "setStatus oid s d = d\<lparr>orders := updateStatusRow oid s (orders d)\<rparr>"

definition updateOrderStatus ::
  "string \<Rightarrow> OrderStatus \<Rightarrow> string \<Rightarrow> db \<Rightarrow> (error + Order) \<times> db" where
  "updateOrderStatus oid st uid d =
     (case findOrder d oid of
        None \<Rightarrow> (Inl (createError ''Order not found'' 404), d)
      | Some order \<Rightarrow>
          (case stores d (storeId order) of
             None \<Rightarrow> (Inl TypeError, d)
           | Some store \<Rightarrow>
               if ownerId store \<noteq> uid then (Inl (createError ''Access denied'' 403), d)
               else if st \<notin> set (validTransitions (status order)) then
                 (Inl (createError (''Cannot change status from '' @ statusName (status order)
                                     @ '' to '' @ statusName st) 400), d)
               else (Inr (order\<lparr>status := st\<rparr>), setStatus oid st d)))"

definition cancelOrder :: "string \<Rightarrow> string \<Rightarrow> db \<Rightarrow> (error + Order) \<times> db" where
  "cancelOrder oid uid d =
     (case findOrder d oid of
        None \<Rightarrow> (Inl (createError ''Order not found'' 404), d)
      | Some order \<Rightarrow>
          (case stores d (storeId order) of
             None \<Rightarrow> (Inl TypeError, d)
           | Some store \<Rightarrow>
               if \<not> (userId order = uid \<or> ownerId store = uid) then
                 (Inl (createError ''Access denied'' 403), d)
               else if status order \<notin> set [PENDING, CONFIRMED, PROCESSING] then
                 (Inl (createError ''Order cannot be cancelled at this stage'' 400), d)
               else (Inr (order\<lparr>status := CANCELLED\<rparr>), setStatus oid CANCELLED d)))"

definition refundOrder :: "string \<Rightarrow> db \<Rightarrow> (error + Order) \<times> db" where
  "refundOrder oid d =
     (case findOrder d oid of
        None \<Rightarrow> (Inl (createError ''Order not found'' 404), d)
      | Some order \<Rightarrow>
          if status order \<noteq> DELIVERED then
            (Inl (createError ''Only delivered orders can be refunded'' 400), d)
          else (Inr (order\<lparr>status := REFUNDED\<rparr>), setStatus oid REFUNDED d))"

text \<open>
  The routes in front of the three operations.  \<open>authenticate\<close> admits a caller who is a
  known user and puts the user row in \<open>req.user\<close>; \<open>authorize(roles)\<close> tests the role;
  \<open>authorizeOrderAccess\<close> admits administrators, the buyer and the seller of the order.
\<close>

definition authenticate :: "string \<Rightarrow> db \<Rightarrow> error + User" where
  "authenticate caller d =
     (case users d caller of
        None \<Rightarrow> Inl (AppError ''Session expired or invalid'' 401)
      | Some u \<Rightarrow> Inr u)"

definition authorize :: "Role list \<Rightarrow> User \<Rightarrow> error + unit" where
  "authorize roles u =
     (if role u \<notin> set roles then Inl (AppError ''Insufficient permissions'' 403) else Inr ())"

definition authorizeOrderAccess :: "string \<Rightarrow> User \<Rightarrow> string \<Rightarrow> db \<Rightarrow> error + unit" where
  "authorizeOrderAccess caller u oid d =
     (if role u = ADMIN \<or> role u = FOUNDER then Inr ()
      else (case findOrder d oid of
              None \<Rightarrow> Inl (AppError ''Order not found'' 404)
            | Some order \<Rightarrow>
                (case stores d (storeId order) of
                   None \<Rightarrow> Inl (AppError ''Authorization failed'' 500)
                 | Some store \<Rightarrow>
                     if \<not> (userId order = caller) \<and> \<not> (ownerId store = caller) then
                       Inl (AppError ''Access denied. You can only access your own orders'' 403)
                     else Inr ())))"

text \<open>
  \<open>validateParams(idParamSchema)\<close> answers 400 unless the \<open>id\<close> of the path is a cuid.
  \<open>idParamSchema\<close> is \<open>z.string().cuid()\<close>, the test of the validation library for the
  pattern \<open>/^c[^\s-]{8,}$/i\<close>: a letter \<open>c\<close>, then at least eight characters that are
  neither white space nor a hyphen.
\<close>

definition whiteSpace :: "char \<Rightarrow> bool" where
  "whiteSpace ch =
     (ch \<in> set [CHR 0x09, CHR 0x0A, CHR 0x0B, CHR 0x0C, CHR 0x0D, CHR 0x20, CHR 0xA0])"

definition idParamSchema :: "string \<Rightarrow> bool" where
  "idParamSchema s =
     (case s of
        [] \<Rightarrow> False
      | ch # rest \<Rightarrow>
          (ch = CHR ''c'' \<or> ch = CHR ''C'') \<and> 8 \<le> length rest \<and>
          list_all (\<lambda>x. x \<noteq> CHR ''-'' \<and> \<not> whiteSpace x) rest)"

definition validateParams :: "(string \<Rightarrow> bool) \<Rightarrow> string \<Rightarrow> error + unit" where
  "validateParams schema oid =
     (if schema oid then Inr () else Inl (AppError ''Parameter validation failed'' 400))"

text \<open>
  \<open>PUT /api/orders/:id/status\<close>, documented as "Private (Seller or Admin)": the chain
  \<open>authenticate\<close>, \<open>validateParams(idParamSchema)\<close>, \<open>validateBody(updateOrderStatusSchema)\<close>,
  then the controller, which calls \<open>updateOrderStatus(id, status, req.user.id)\<close>.  The body
  schema admits exactly the statuses of the enum, which is the type of \<open>st\<close>.
\<close>

definition putOrderStatus ::
  "string \<Rightarrow> string \<Rightarrow> OrderStatus \<Rightarrow> db \<Rightarrow> (error + Order) \<times> db" where
  "putOrderStatus caller oid st d =
     (case authenticate caller d of
        Inl e \<Rightarrow> (Inl e, d)
      | Inr u \<Rightarrow>
          (case validateParams idParamSchema oid of
             Inl e \<Rightarrow> (Inl e, d)
           | Inr x \<Rightarrow> updateOrderStatus oid st caller d))"

text \<open>
  \<open>POST /api/orders/:id/cancel\<close>, documented as "Private (Buyer or Admin)": the chain
  \<open>authenticate\<close>, \<open>authorizeOrderAccess\<close>, \<open>validateParams(idParamSchema)\<close>, then the
  controller, which calls \<open>cancelOrder(id, req.user.id)\<close>.
\<close>

definition postOrderCancel :: "string \<Rightarrow> string \<Rightarrow> db \<Rightarrow> (error + Order) \<times> db" where
  "postOrderCancel caller oid d =
     (case authenticate caller d of
        Inl e \<Rightarrow> (Inl e, d)
      | Inr u \<Rightarrow>
          (case authorizeOrderAccess caller u oid d of
             Inl e \<Rightarrow> (Inl e, d)
           | Inr x \<Rightarrow>
               (case validateParams idParamSchema oid of
                  Inl e \<Rightarrow> (Inl e, d)
                | Inr y \<Rightarrow> cancelOrder oid caller d)))"

text \<open>
  \<open>POST /api/orders/:id/refund\<close>, for administrators: the chain \<open>authenticate\<close>,
  \<open>authorize('ADMIN', 'FOUNDER')\<close>, \<open>validateParams(idParamSchema)\<close>, then the controller,
  which calls \<open>refundOrder(id)\<close>.
\<close>

definition postOrderRefund :: "string \<Rightarrow> string \<Rightarrow> db \<Rightarrow> (error + Order) \<times> db" where
  "postOrderRefund caller oid d =
     (case authenticate caller d of
        Inl e \<Rightarrow> (Inl e, d)
      | Inr u \<Rightarrow>
          (case authorize [ADMIN, FOUNDER] u of
             Inl e \<Rightarrow> (Inl e, d)
           | Inr x \<Rightarrow>
               (case validateParams idParamSchema oid of
                  Inl e \<Rightarrow> (Inl e, d)
                | Inr y \<Rightarrow> refundOrder oid d)))"

text \<open>
  The transition table as the specification writes it, and what it means for a row to
  change along it: the row is untouched, or only its status moved, along an edge.
\<close>

fun tableEdge :: "OrderStatus \<Rightarrow> OrderStatus \<Rightarrow> bool" where
  "tableEdge PENDING t = (t = CONFIRMED \<or> t = CANCELLED)"
| "tableEdge CONFIRMED t = (t = PROCESSING \<or> t = CANCELLED)"
| "tableEdge PROCESSING t = (t = SHIPPED \<or> t = CANCELLED)"
| "tableEdge SHIPPED t = (t = DELIVERED)"
| "tableEdge DELIVERED t = (t = REFUNDED)"
| "tableEdge CANCELLED t = False"
| "tableEdge REFUNDED t = False"

definition followsTable :: "Order \<Rightarrow> Order \<Rightarrow> bool" where
  "followsTable r r' =
     (r' = r \<or> (r' = r\<lparr>status := status r'\<rparr> \<and> tableEdge (status r) (status r')))"

text \<open>An error message names a status when the status, as printed, occurs in it.\<close>

definition namesStatus :: "error \<Rightarrow> OrderStatus \<Rightarrow> bool" where
  "namesStatus e s = sublist (statusName s) (errorMessage e)"

section \<open>Order creation\<close>

text \<open>
  \<open>CreateOrderRequest\<close>: the payment method and the optional coupon code (the shipping
  address is validated at the route and not read by \<open>createOrder\<close>).
\<close>

record CreateOrderRequest =
  r_paymentMethod :: string
  couponCode :: "string option"

text \<open>A cart item tagged with the store of its product: \<open>{ ...item, storeId }\<close>.\<close>

record StoreItem = CartItem +
  si_storeId :: string

text \<open>
  What one iteration of the loop over the store groups reads from outside the store:
  the clock at the expiry test (\<open>new Date()\<close>), the clock and the random suffix of the
  order number (\<open>Date.now()\<close>, \<open>Math.random().toString(36).substr(2, 9)\<close>), the id the
  store gives the new order row, and whether a write of the group's transaction is
  rejected (\<open>Some 0\<close> the order row, \<open>Some k\<close> the \<open>k\<close>-th order item, \<open>None\<close> no write).
\<close>

record GroupEnv =
  now :: nat
  dateNow :: nat
  randomSuffix :: string
  newOrderId :: string
  failingWrite :: "nat option"

text \<open>
  \<open>itemsByStore\<close> is a JavaScript \<open>Map\<close>, iterated in insertion order of its keys: an
  association list.  \<open>pushItem\<close> is the \<open>has\<close>/\<open>set\<close>/\<open>get(...).push\<close> sequence.
\<close>

type_synonym ItemsByStore = "(string \<times> StoreItem list) list"

definition pushItem :: "string \<Rightarrow> StoreItem \<Rightarrow> ItemsByStore \<Rightarrow> ItemsByStore" where
  "pushItem sid it m =
     map (\<lambda>(k, v). if k = sid then (k, v @ [it]) else (k, v))
         (if map_of m sid = None then m @ [(sid, [])] else m)"

text \<open>
  The first loop: every cart item is checked against its live product (\<open>checkItem\<close> is
  the lookup and the three tests of one iteration), then pushed on the group of the
  product's store.  The first failing item throws.
\<close>

definition checkItem :: "db \<Rightarrow> CartItem \<Rightarrow> error + Product" where
  "checkItem d item =
     (case products d (productId item) of
        None \<Rightarrow> Inl (createError (''Product '' @ productId item @ '' not found'') 404)
      | Some product \<Rightarrow>
          if \<not> inStock product then
            Inl (createError (''Product '' @ p_name product @ '' is out of stock'') 400)
          else if jsStrictNeq (p_price product) (price item) then
            Inl (createError (''Price changed for product '' @ p_name product) 400)
          else Inr product)"

definition tagged :: "string \<Rightarrow> CartItem \<Rightarrow> StoreItem" where
  "tagged sid item =
     \<lparr>productId = productId item, quantity = quantity item, price = price item,
      si_storeId = sid\<rparr>"

fun groupByStore :: "db \<Rightarrow> CartItem list \<Rightarrow> ItemsByStore \<Rightarrow> error + ItemsByStore" where
  "groupByStore d [] m = Inr m"
| "groupByStore d (item # rest) m =
     (case checkItem d item of
        Inl e \<Rightarrow> Inl e
      | Inr product \<Rightarrow>
          groupByStore d rest (pushItem (p_storeId product) (tagged (p_storeId product) item) m))"

text \<open>\<open>storeItems.reduce((sum, item) => sum + (item.price * item.quantity), 0)\<close>\<close>

definition storeTotal :: "StoreItem list \<Rightarrow> number" where
  "storeTotal storeItems =
     foldl (\<lambda>sum item. jsAdd sum (jsMul (price item) (numOfInt (quantity item))))
       (Finite 0) storeItems"

text \<open>
  The discount of an applied coupon: \<open>storeTotal * (1 - coupon.discount / 100)\<close> for a
  percentage, \<open>Math.max(0, storeTotal - coupon.discount)\<close> otherwise.
\<close>

definition discounted :: "Coupon \<Rightarrow> number \<Rightarrow> number" where
  "discounted c s =
     (if discountType c = PERCENTAGE
      then jsMul s (jsSub (Finite 1) (jsDiv (discount c) (Finite 100)))
      else mathMax (Finite 0) (jsSub s (discount c)))"

text \<open>
  The coupon block of one group, at clock reading \<open>t\<close>: it returns \<open>finalTotal\<close> and
  \<open>couponUsed\<close>, and the store with the usage counter incremented when the coupon applies.
  An empty code is falsy, as an absent one.
\<close>

definition applyCoupon ::
  "CreateOrderRequest \<Rightarrow> nat \<Rightarrow> number \<Rightarrow> db \<Rightarrow> (error + number \<times> bool) \<times> db" where
  "applyCoupon data t s d =
     (case couponCode data of
        None \<Rightarrow> (Inr (s, False), d)
      | Some code \<Rightarrow>
          if code = [] then (Inr (s, False), d)
          else (case coupons d code of
                  None \<Rightarrow> (Inr (s, False), d)
                | Some c \<Rightarrow>
                    if isActive c \<and> expiresAt c > t then
                      if usageLimit c > 0 \<and> usageCount c \<ge> usageLimit c then
                        (Inl (createError ''Coupon usage limit exceeded'' 400), d)
                      else
                        (Inr (discounted c s, True),
                         d\<lparr>coupons := (coupons d)(code \<mapsto> c\<lparr>usageCount := usageCount c + 1\<rparr>)\<rparr>)
                    else (Inr (s, False), d)))"

text \<open>Decimal rendering of a number inside a template string.\<close>

definition digitChar :: "nat \<Rightarrow> char" where
  "digitChar n = char_of (48 + n)"

fun showNat :: "nat \<Rightarrow> string" where
  "showNat n = (if n < 10 then [digitChar n] else showNat (n div 10) @ [digitChar (n mod 10)])"

declare showNat.simps [simp del]

definition makeOrderNumber :: "nat \<Rightarrow> string \<Rightarrow> string" where
  "makeOrderNumber t sfx = ''ORD-'' @ showNat t @ ''-'' @ sfx"

text \<open>
  The body of the transaction: the order row, then one order item per item of the group.
  Writes are numbered from 0; the write the environment rejects throws.
\<close>

definition itemRow :: "string \<Rightarrow> StoreItem \<Rightarrow> OrderItem" where
  "itemRow oid item =
     \<lparr>orderId = oid, oi_productId = productId item,
      oi_quantity = quantity item, oi_price = price item\<rparr>"

fun createOrderItems ::
  "nat option \<Rightarrow> nat \<Rightarrow> string \<Rightarrow> StoreItem list \<Rightarrow> db \<Rightarrow> (error + unit) \<times> db" where
  "createOrderItems fw n oid [] tx = (Inr (), tx)"
| "createOrderItems fw n oid (item # rest) tx =
     (if fw = Some n then (Inl PrismaError, tx)
      else createOrderItems fw (Suc n) oid rest
             (tx\<lparr>orderItems := orderItems tx @ [itemRow oid item]\<rparr>))"

definition orderTx :: "nat option \<Rightarrow> Order \<Rightarrow> StoreItem list \<Rightarrow> db \<Rightarrow> (error + Order) \<times> db" where
  "orderTx fw newOrder storeItems tx =
     (if fw = Some 0 then (Inl PrismaError, tx)
      else (case createOrderItems fw 1 (o_id newOrder) storeItems
                   (tx\<lparr>orders := orders tx @ [newOrder]\<rparr>) of
              (Inl e, tx') \<Rightarrow> (Inl e, tx')
            | (Inr u, tx') \<Rightarrow> (Inr newOrder, tx')))"

text \<open>
  \<open>prisma.$transaction\<close>: the body runs on the store; when it throws, none of its writes
  is kept and the error is rethrown.
\<close>

definition transaction :: "(db \<Rightarrow> (error + 'a) \<times> db) \<Rightarrow> db \<Rightarrow> (error + 'a) \<times> db" where
  "transaction body d =
     (case body d of
        (Inl e, tx) \<Rightarrow> (Inl e, d)
      | (Inr v, tx) \<Rightarrow> (Inr v, tx))"

text \<open>The order row of a group (status \<open>PENDING\<close> is the column default).\<close>

definition newOrderRow ::
  "string \<Rightarrow> CreateOrderRequest \<Rightarrow> GroupEnv \<Rightarrow> string \<Rightarrow> number \<Rightarrow> bool \<Rightarrow> Order" where
  "newOrderRow uid data e sid finalTotal couponUsed =
     \<lparr>o_id = newOrderId e,
      orderNumber = makeOrderNumber (dateNow e) (randomSuffix e),
      total = finalTotal, status = PENDING, userId = uid, storeId = sid,
      paymentMethod = r_paymentMethod data, isCouponUsed = couponUsed,
      coupon = (if couponUsed then couponCode data else None)\<rparr>"

text \<open>
  One iteration of the second loop: the coupon block, then the transaction of the group.
\<close>

definition processGroup ::
  "string \<Rightarrow> CreateOrderRequest \<Rightarrow> GroupEnv \<Rightarrow> string \<Rightarrow> StoreItem list \<Rightarrow> db
     \<Rightarrow> (error + Order) \<times> db" where
  "processGroup uid data e sid storeItems d =
     (case applyCoupon data (now e) (storeTotal storeItems) d of
        (Inl err, d1) \<Rightarrow> (Inl err, d1)
      | (Inr (finalTotal, couponUsed), d1) \<Rightarrow>
          transaction
            (orderTx (failingWrite e) (newOrderRow uid data e sid finalTotal couponUsed)
               storeItems) d1)"

text \<open>
  The second loop, over the groups in insertion order; \<open>k\<close> counts the iterations and
  \<open>acc\<close> is the array \<open>orders\<close>.
\<close>

fun processGroups ::
  "string \<Rightarrow> CreateOrderRequest \<Rightarrow> (nat \<Rightarrow> GroupEnv) \<Rightarrow> nat \<Rightarrow> ItemsByStore \<Rightarrow> Order list
     \<Rightarrow> db \<Rightarrow> (error + Order list) \<times> db" where
  "processGroups uid data env k [] acc d = (Inr acc, d)"
| "processGroups uid data env k ((sid, storeItems) # gs) acc d =
     (case processGroup uid data (env k) sid storeItems d of
        (Inl e, d2) \<Rightarrow> (Inl e, d2)
      | (Inr order, d2) \<Rightarrow> processGroups uid data env (Suc k) gs (acc @ [order]) d2)"

text \<open>The result: \<open>orders.length === 1 ? orders[0] : orders\<close>.\<close>

datatype OrderResult = Single Order | Many "Order list"

definition emptyCart :: Cart where
  "emptyCart = \<lparr>items = [], cartTotal = Finite 0\<rparr>"

definition clearCart :: "string \<Rightarrow> db \<Rightarrow> db" where
  "clearCart uid d =
     (case users d uid of
        None \<Rightarrow> d
      | Some u \<Rightarrow> d\<lparr>users := (users d)(uid \<mapsto> u\<lparr>cart := Some emptyCart\<rparr>)\<rparr>)"

definition createOrder ::
  "string \<Rightarrow> CreateOrderRequest \<Rightarrow> (nat \<Rightarrow> GroupEnv) \<Rightarrow> db \<Rightarrow> (error + OrderResult) \<times> db" where
  "createOrder uid data env d =
     (case users d uid of
        None \<Rightarrow> (Inl (createError ''User not found'' 404), d)
      | Some user \<Rightarrow>
          (let c = (case cart user of None \<Rightarrow> emptyCart | Some c \<Rightarrow> c) in
           if items c = [] then (Inl (createError ''Cart is empty'' 400), d)
           else (case groupByStore d (items c) [] of
                   Inl e \<Rightarrow> (Inl e, d)
                 | Inr itemsByStore \<Rightarrow>
                     (case processGroups uid data env 0 itemsByStore [] d of
                        (Inl e, d') \<Rightarrow> (Inl e, d')
                      | (Inr os, d') \<Rightarrow>
                          (Inr (if length os = 1 then Single (hd os) else Many os),
                           clearCart uid d')))))"

section \<open>Vocabulary of the specification\<close>

text \<open>
  The words of the specification about a cart, read against the catalog: the store that
  owns an item's product, an item that must make the checkout fail, the items of one
  store (its "store group"), and the stores of a cart in order of first occurrence.
\<close>

definition storeOf :: "db \<Rightarrow> CartItem \<Rightarrow> string" where
  "storeOf d item = (case products d (productId item) of None \<Rightarrow> [] | Some p \<Rightarrow> p_storeId p)"

definition badItem :: "db \<Rightarrow> CartItem \<Rightarrow> bool" where
  "badItem d item =
     (case products d (productId item) of
        None \<Rightarrow> True
      | Some p \<Rightarrow> \<not> inStock p \<or> jsStrictNeq (p_price p) (price item))"

definition groupOf :: "db \<Rightarrow> CartItem list \<Rightarrow> string \<Rightarrow> StoreItem list" where
  "groupOf d its sid = map (tagged sid) (filter (\<lambda>it. storeOf d it = sid) its)"

fun storesIn :: "db \<Rightarrow> CartItem list \<Rightarrow> string list \<Rightarrow> string list" where
  "storesIn d [] ks = ks"
| "storesIn d (it # its) ks =
     storesIn d its (if storeOf d it \<in> set ks then ks else ks @ [storeOf d it])"

text \<open>
  The words of the specification about a coupon: the coupon a request names, whether it
  is active and unexpired at a clock reading, whether its usage limit is used up; the
  error of the exhausted coupon, and the store with the usage counter advanced.
\<close>

definition couponFor :: "CreateOrderRequest \<Rightarrow> db \<Rightarrow> Coupon option" where
  "couponFor data d =
     (case couponCode data of
        None \<Rightarrow> None
      | Some code \<Rightarrow> if code = [] then None else coupons d code)"

definition applicable :: "nat \<Rightarrow> Coupon \<Rightarrow> bool" where
  "applicable t c = (isActive c \<and> t < expiresAt c)"

definition exhausted :: "Coupon \<Rightarrow> bool" where
  "exhausted c = (0 < usageLimit c \<and> usageLimit c \<le> usageCount c)"

definition limitExceeded :: error where
  "limitExceeded = AppError ''Coupon usage limit exceeded'' 400"

definition bumpUsage :: "CreateOrderRequest \<Rightarrow> int \<Rightarrow> db \<Rightarrow> db" where
  "bumpUsage data n d =
     (case couponCode data of
        None \<Rightarrow> d
      | Some code \<Rightarrow>
          (case coupons d code of
             None \<Rightarrow> d
           | Some c \<Rightarrow> d\<lparr>coupons := (coupons d)(code \<mapsto> c\<lparr>usageCount := usageCount c + n\<rparr>)\<rparr>))"

text \<open>
  The rows a checkout is expected to write when every group is treated alike: group
  \<open>k\<close> gets the order row built from the \<open>k\<close>-th environment with total \<open>f\<close> of the
  group's subtotal, and one order item per item of the group.
\<close>

fun expectedRows ::
  "string \<Rightarrow> CreateOrderRequest \<Rightarrow> (nat \<Rightarrow> GroupEnv) \<Rightarrow> (number \<Rightarrow> number) \<Rightarrow> bool \<Rightarrow> nat \<Rightarrow> ItemsByStore
     \<Rightarrow> Order list" where
  "expectedRows uid data env f used k [] = []"
| "expectedRows uid data env f used k ((sid, g) # gs) =
     newOrderRow uid data (env k) sid (f (storeTotal g)) used
       # expectedRows uid data env f used (Suc k) gs"

fun expectedItems :: "(nat \<Rightarrow> GroupEnv) \<Rightarrow> nat \<Rightarrow> ItemsByStore \<Rightarrow> OrderItem list" where
  "expectedItems env k [] = []"
| "expectedItems env k ((sid, g) # gs) =
     map (itemRow (newOrderId (env k))) g @ expectedItems env (Suc k) gs"

text \<open>
  The discount a request's coupon gives (none without a coupon); the invariant of the
  usage counters; and the rows a checkout may write for its groups: for group \<open>k\<close> the
  order row built from the \<open>k\<close>-th environment, whose total is the group's subtotal,
  discounted by \<open>f\<close> exactly when the row says the coupon was used; and for each order
  row one order item per item of its group.
\<close>

definition discountOf :: "CreateOrderRequest \<Rightarrow> db \<Rightarrow> number \<Rightarrow> number" where
  "discountOf data d s = (case couponFor data d of None \<Rightarrow> s | Some c \<Rightarrow> discounted c s)"

definition withinLimits :: "db \<Rightarrow> bool" where
  "withinLimits d =
     (\<forall>code c. coupons d code = Some c \<longrightarrow> 0 < usageLimit c \<longrightarrow> usageCount c \<le> usageLimit c)"

definition rowFor ::
  "string \<Rightarrow> CreateOrderRequest \<Rightarrow> (number \<Rightarrow> number) \<Rightarrow> GroupEnv \<Rightarrow> string \<times> StoreItem list \<Rightarrow> Order
     \<Rightarrow> bool" where
  "rowFor uid data f e grp row =
     (row = newOrderRow uid data e (fst grp)
              (if isCouponUsed row then f (storeTotal (snd grp)) else storeTotal (snd grp))
              (isCouponUsed row))"

fun rowsFor ::
  "string \<Rightarrow> CreateOrderRequest \<Rightarrow> (number \<Rightarrow> number) \<Rightarrow> (nat \<Rightarrow> GroupEnv) \<Rightarrow> nat \<Rightarrow> ItemsByStore
     \<Rightarrow> Order list \<Rightarrow> bool" where
  "rowsFor uid data f env k [] rows = (rows = [])"
| "rowsFor uid data f env k (grp # gs) [] = False"
| "rowsFor uid data f env k (grp # gs) (row # rows) =
     (rowFor uid data f (env k) grp row \<and> rowsFor uid data f env (Suc k) gs rows)"

fun itemsFor :: "ItemsByStore \<Rightarrow> Order list \<Rightarrow> OrderItem list" where
  "itemsFor (grp # gs) (row # rows) = map (itemRow (o_id row)) (snd grp) @ itemsFor gs rows"
| "itemsFor gs rows = []"

text \<open>
  The store groups of a cart, and the subtotal of one store's items: price times
  quantity, added up from 0 in the order of the cart, as the source adds them.
\<close>

definition cartGroups :: "db \<Rightarrow> CartItem list \<Rightarrow> ItemsByStore" where
  "cartGroups d its = map (\<lambda>s. (s, groupOf d its s)) (storesIn d its [])"

definition groupTotal :: "db \<Rightarrow> CartItem list \<Rightarrow> string \<Rightarrow> number" where
  "groupTotal d its sid =
     foldl (\<lambda>sum it. jsAdd sum (jsMul (price it) (numOfInt (quantity it)))) (Finite 0)
       (filter (\<lambda>it. storeOf d it = sid) its)"

text \<open>An amount is "never negative" when the comparison \<open>x < 0\<close> is false.\<close>

definition notNegative :: "number \<Rightarrow> bool" where
  "notNegative x = (\<not> jsLess x (Finite 0))"

text \<open>The value \<open>createOrder\<close> returns for the orders it made.\<close>

definition orderResult :: "Order list \<Rightarrow> OrderResult" where
  "orderResult os = (if length os = 1 then Single (hd os) else Many os)"

text \<open>A sequence of checkouts, one after the other, each with its own environment.\<close>

fun runCheckouts ::
  "(string \<times> CreateOrderRequest \<times> (nat \<Rightarrow> GroupEnv)) list \<Rightarrow> db \<Rightarrow> db" where
  "runCheckouts [] d = d"
| "runCheckouts ((uid, data, env) # calls) d =
     runCheckouts calls (snd (createOrder uid data env d))"



section \<open>Scenarios\<close>

text \<open>
  A store with three orders of one buyer at one seller's shop, and an administrator who
  owns no shop.
\<close>

definition dbS :: db where
  "dbS = \<lparr>users = [''buyer1'' \<mapsto> \<lparr>role = USER, cart = None\<rparr>,
                   ''seller1'' \<mapsto> \<lparr>role = SELLER, cart = None\<rparr>,
                   ''admin1'' \<mapsto> \<lparr>role = ADMIN, cart = None\<rparr>],
          products = Map.empty,
          stores = [''S1'' \<mapsto> \<lparr>ownerId = ''seller1''\<rparr>],
          coupons = Map.empty,
          orders = [\<lparr>o_id = ''o1'', orderNumber = ''ORD-1-a'', total = Finite 100, status = PENDING,
                     userId = ''buyer1'', storeId = ''S1'', paymentMethod = ''GOPAY'',
                     isCouponUsed = False, coupon = None\<rparr>,
                    \<lparr>o_id = ''o2'', orderNumber = ''ORD-2-b'', total = Finite 50, status = SHIPPED,
                     userId = ''buyer1'', storeId = ''S1'', paymentMethod = ''GOPAY'',
                     isCouponUsed = False, coupon = None\<rparr>,
                    \<lparr>o_id = ''o3'', orderNumber = ''ORD-3-c'', total = Finite 70, status = DELIVERED,
                     userId = ''buyer1'', storeId = ''S1'', paymentMethod = ''GOPAY'',
                     isCouponUsed = False, coupon = None\<rparr>],
          orderItems = []\<rparr>"

definition order2 :: Order where
  "order2 = \<lparr>o_id = ''o2'', orderNumber = ''ORD-2-b'', total = Finite 50, status = SHIPPED,
             userId = ''buyer1'', storeId = ''S1'', paymentMethod = ''GOPAY'',
             isCouponUsed = False, coupon = None\<rparr>"

definition order3 :: Order where
  "order3 = \<lparr>o_id = ''o3'', orderNumber = ''ORD-3-c'', total = Finite 70, status = DELIVERED,
             userId = ''buyer1'', storeId = ''S1'', paymentMethod = ''GOPAY'',
             isCouponUsed = False, coupon = None\<rparr>"

text \<open>
  A catalog with product \<open>pA\<close> (price 100) of store \<open>S1\<close> and product \<open>pB\<close> (price 50) of
  store \<open>S2\<close>; the coupons \<open>SAVE10\<close> (10 percent, unlimited), \<open>GONE50\<close> (its single use
  is taken) and \<open>OLD20\<close> (expired before the checkouts); buyer \<open>u1\<close> with the
  cart of two \<open>pA\<close> and one \<open>pB\<close>, and buyer \<open>u2\<close> whose cart still holds \<open>pB\<close> at the stale price 40.
\<close>

definition cartAB :: Cart where
  "cartAB = \<lparr>items = [\<lparr>productId = ''pA'', quantity = 2, price = Finite 100\<rparr>,
                      \<lparr>productId = ''pB'', quantity = 1, price = Finite 50\<rparr>], cartTotal = Finite 250\<rparr>"

definition cartStale :: Cart where
  "cartStale = \<lparr>items = [\<lparr>productId = ''pA'', quantity = 1, price = Finite 100\<rparr>,
                         \<lparr>productId = ''pB'', quantity = 1, price = Finite 40\<rparr>], cartTotal = Finite 140\<rparr>"

definition save10 :: Coupon where
  "save10 = \<lparr>discount = Finite 10, discountType = PERCENTAGE, isActive = True, expiresAt = 1800000000000,
             usageLimit = 0, usageCount = 0\<rparr>"

definition gone50 :: Coupon where
  "gone50 = \<lparr>discount = Finite 50, discountType = FIXED, isActive = True, expiresAt = 1800000000000,
             usageLimit = 1, usageCount = 1\<rparr>"

definition old20 :: Coupon where
  "old20 = \<lparr>discount = Finite 20, discountType = PERCENTAGE, isActive = True, expiresAt = 1600000000000,
            usageLimit = 0, usageCount = 0\<rparr>"

definition db2 :: db where
  "db2 = \<lparr>users = [''u1'' \<mapsto> \<lparr>role = USER, cart = Some cartAB\<rparr>,
                   ''u2'' \<mapsto> \<lparr>role = USER, cart = Some cartStale\<rparr>],
          products = [''pA'' \<mapsto> \<lparr>p_storeId = ''S1'', p_price = Finite 100, inStock = True, p_name = ''A''\<rparr>,
                      ''pB'' \<mapsto> \<lparr>p_storeId = ''S2'', p_price = Finite 50, inStock = True, p_name = ''B''\<rparr>],
          stores = [''S1'' \<mapsto> \<lparr>ownerId = ''seller1''\<rparr>, ''S2'' \<mapsto> \<lparr>ownerId = ''seller2''\<rparr>],
          coupons = [''SAVE10'' \<mapsto> save10, ''GONE50'' \<mapsto> gone50, ''OLD20'' \<mapsto> old20],
          orders = [], orderItems = []\<rparr>"

text \<open>The same store with both products in store \<open>S1\<close>.\<close>

definition db1 :: db where
  "db1 = db2\<lparr>products :=
            [''pA'' \<mapsto> \<lparr>p_storeId = ''S1'', p_price = Finite 100, inStock = True, p_name = ''A''\<rparr>,
             ''pB'' \<mapsto> \<lparr>p_storeId = ''S1'', p_price = Finite 50, inStock = True, p_name = ''B''\<rparr>]\<rparr>"

text \<open>
  Environments: \<open>env0\<close> has a clock that advances by one millisecond per group and no
  failing write; \<open>envFail\<close> rejects the first order item of the second group; \<open>envSame\<close>
  reads the same millisecond and draws the same random suffix for every group.
\<close>

definition env0 :: "nat \<Rightarrow> GroupEnv" where
  "env0 k = \<lparr>now = 1700000000000 + k, dateNow = 1700000000000 + k, randomSuffix = ''k3x9q0a7b'',
             newOrderId = ''o'' @ showNat k, failingWrite = None\<rparr>"

definition envFail :: "nat \<Rightarrow> GroupEnv" where
  "envFail k = \<lparr>now = 1700000000000 + k, dateNow = 1700000000000 + k, randomSuffix = ''k3x9q0a7b'',
                newOrderId = ''o'' @ showNat k,
                failingWrite = (if k = 1 then Some 1 else None)\<rparr>"

definition envSame :: "nat \<Rightarrow> GroupEnv" where
  "envSame k = \<lparr>now = 1700000000000, dateNow = 1700000000000, randomSuffix = ''k3x9q0a7b'',
                newOrderId = ''o'' @ showNat k, failingWrite = None\<rparr>"

definition reqNone :: CreateOrderRequest where
  "reqNone = \<lparr>r_paymentMethod = ''GOPAY'', couponCode = None\<rparr>"

definition req10 :: CreateOrderRequest where
  "req10 = \<lparr>r_paymentMethod = ''GOPAY'', couponCode = Some ''SAVE10''\<rparr>"

definition reqGone :: CreateOrderRequest where
  "reqGone = \<lparr>r_paymentMethod = ''GOPAY'', couponCode = Some ''GONE50''\<rparr>"

definition reqOld :: CreateOrderRequest where
  "reqOld = \<lparr>r_paymentMethod = ''GOPAY'', couponCode = Some ''OLD20''\<rparr>"

text \<open>The order of the single-store checkout of \<open>u1\<close> without a coupon.\<close>

definition order250 :: Order where
  "order250 = \<lparr>o_id = ''o0'', orderNumber = ''ORD-1700000000000-k3x9q0a7b'', total = Finite 250, status = PENDING,
               userId = ''u1'', storeId = ''S1'', paymentMethod = ''GOPAY'',
               isCouponUsed = False, coupon = None\<rparr>"

text \<open>
  The orders of the two-store checkout of \<open>u1\<close> under \<open>env0\<close>: at full price, and with
  the coupon \<open>SAVE10\<close> applied.
\<close>

definition order200 :: Order where
  "order200 = \<lparr>o_id = ''o0'', orderNumber = ''ORD-1700000000000-k3x9q0a7b'', total = Finite 200, status = PENDING,
               userId = ''u1'', storeId = ''S1'', paymentMethod = ''GOPAY'',
               isCouponUsed = False, coupon = None\<rparr>"

definition order50 :: Order where
  "order50 = \<lparr>o_id = ''o1'', orderNumber = ''ORD-1700000000001-k3x9q0a7b'', total = Finite 50, status = PENDING,
              userId = ''u1'', storeId = ''S2'', paymentMethod = ''GOPAY'',
              isCouponUsed = False, coupon = None\<rparr>"

definition order180 :: Order where
  "order180 = \<lparr>o_id = ''o0'', orderNumber = ''ORD-1700000000000-k3x9q0a7b'', total = Finite 180, status = PENDING,
               userId = ''u1'', storeId = ''S1'', paymentMethod = ''GOPAY'',
               isCouponUsed = True, coupon = Some ''SAVE10''\<rparr>"

definition order45 :: Order where
  "order45 = \<lparr>o_id = ''o1'', orderNumber = ''ORD-1700000000001-k3x9q0a7b'', total = Finite 45, status = PENDING,
              userId = ''u1'', storeId = ''S2'', paymentMethod = ''GOPAY'',
              isCouponUsed = True, coupon = Some ''SAVE10''\<rparr>"

text \<open>
  A store whose only coupon is \<open>FLAT300\<close>, a fixed discount of 300, and the request
  naming it.
\<close>

definition flat300 :: Coupon where
  "flat300 = \<lparr>discount = Finite 300, discountType = FIXED, isActive = True, expiresAt = 1800000000000,
              usageLimit = 0, usageCount = 0\<rparr>"

definition db3 :: db where
  "db3 = db2\<lparr>coupons := [''FLAT300'' \<mapsto> flat300]\<rparr>"

definition reqFlat :: CreateOrderRequest where
  "reqFlat = \<lparr>r_paymentMethod = ''GOPAY'', couponCode = Some ''FLAT300''\<rparr>"

text \<open>
  The store group of \<open>S1\<close> in the cart of \<open>u1\<close>, and the order it gets when the fixed
  discount of 300 exceeds its subtotal of 200.
\<close>

definition groupA :: "StoreItem list" where
  "groupA = [\<lparr>productId = ''pA'', quantity = 2, price = Finite 100, si_storeId = ''S1''\<rparr>]"

definition orderFree :: Order where
  "orderFree = \<lparr>o_id = ''o0'', orderNumber = ''ORD-1700000000000-k3x9q0a7b'', total = Finite 0, status = PENDING,
                userId = ''u1'', storeId = ''S1'', paymentMethod = ''GOPAY'',
                isCouponUsed = True, coupon = Some ''FLAT300''\<rparr>"

text \<open>The store group of \<open>S2\<close> in the cart of \<open>u1\<close>.\<close>

definition groupB :: "StoreItem list" where
  "groupB = [\<lparr>productId = ''pB'', quantity = 1, price = Finite 50, si_storeId = ''S2''\<rparr>]"

text \<open>
  The second order of the checkout with \<open>FLAT300\<close>: the discount exceeds the subtotal of
  50 as well.
\<close>

definition orderFreeB :: Order where
  "orderFreeB = \<lparr>o_id = ''o1'', orderNumber = ''ORD-1700000000001-k3x9q0a7b'', total = Finite 0, status = PENDING,
                 userId = ''u1'', storeId = ''S2'', paymentMethod = ''GOPAY'',
                 isCouponUsed = True, coupon = Some ''FLAT300''\<rparr>"

text \<open>
  A store where buyer \<open>u3\<close> has one \<open>pC\<close> at 90 in the cart and the coupon \<open>SAVE30\<close> takes
  30 percent: the source computes \<open>90 * (1 - 30 / 100)\<close>, which is the binary64 value
  \<open>62.99999999999999\<close>, that is \<open>63 - 2^-47\<close>.
\<close>

definition cart90 :: Cart where
  "cart90 = \<lparr>items = [\<lparr>productId = ''pC'', quantity = 1, price = Finite 90\<rparr>], cartTotal = Finite 90\<rparr>"

definition save30 :: Coupon where
  "save30 = \<lparr>discount = Finite 30, discountType = PERCENTAGE, isActive = True, expiresAt = 1800000000000,
             usageLimit = 0, usageCount = 0\<rparr>"

definition db4 :: db where
  "db4 = \<lparr>users = [''u3'' \<mapsto> \<lparr>role = USER, cart = Some cart90\<rparr>],
          products = [''pC'' \<mapsto> \<lparr>p_storeId = ''S3'', p_price = Finite 90, inStock = True, p_name = ''C''\<rparr>],
          stores = [''S3'' \<mapsto> \<lparr>ownerId = ''seller3''\<rparr>],
          coupons = [''SAVE30'' \<mapsto> save30],
          orders = [], orderItems = []\<rparr>"

definition req30 :: CreateOrderRequest where
  "req30 = \<lparr>r_paymentMethod = ''GOPAY'', couponCode = Some ''SAVE30''\<rparr>"

definition order63 :: Order where
  "order63 = \<lparr>o_id = ''o0'', orderNumber = ''ORD-1700000000000-k3x9q0a7b'',
              total = Finite (8866461766385663 / 140737488355328), status = PENDING,
              userId = ''u3'', storeId = ''S3'', paymentMethod = ''GOPAY'',
              isCouponUsed = True, coupon = Some ''SAVE30''\<rparr>"

text \<open>
  A store where buyer \<open>u4\<close> has three \<open>pD\<close> in the cart, at the price that the literal
  \<open>0.1\<close> denotes: the source computes \<open>0 + 0.1 * 3\<close>, which is the binary64 value
  \<open>0.30000000000000004\<close>.  The only coupon is the expired \<open>OLD20\<close>.
\<close>

definition cartDimes :: Cart where
  "cartDimes = \<lparr>items = [\<lparr>productId = ''pD'', quantity = 3,
                           price = Finite (3602879701896397 / 36028797018963968)\<rparr>],
                cartTotal = Finite (1351079888211149 / 4503599627370496)\<rparr>"

definition db5 :: db where
  "db5 = \<lparr>users = [''u4'' \<mapsto> \<lparr>role = USER, cart = Some cartDimes\<rparr>],
          products = [''pD'' \<mapsto> \<lparr>p_storeId = ''S4'', p_price = Finite (3602879701896397 / 36028797018963968),
                                inStock = True, p_name = ''D''\<rparr>],
          stores = [''S4'' \<mapsto> \<lparr>ownerId = ''seller4''\<rparr>],
          coupons = [''OLD20'' \<mapsto> old20],
          orders = [], orderItems = []\<rparr>"

definition orderDimes :: Order where
  "orderDimes = \<lparr>o_id = ''o0'', orderNumber = ''ORD-1700000000000-k3x9q0a7b'',
                 total = Finite (1351079888211149 / 4503599627370496), status = PENDING,
                 userId = ''u4'', storeId = ''S4'', paymentMethod = ''GOPAY'',
                 isCouponUsed = False, coupon = None\<rparr>"

text \<open>
  The store of the status scenario with the ids the routes admit: a buyer, a seller who
  owns the shop, an administrator who owns no shop, and one pending order.
\<close>

definition dbR :: db where
  "dbR = \<lparr>users = [''cbuyer0000000000000000001'' \<mapsto> \<lparr>role = USER, cart = None\<rparr>,
                   ''cseller000000000000000001'' \<mapsto> \<lparr>role = SELLER, cart = None\<rparr>,
                   ''cadmin0000000000000000001'' \<mapsto> \<lparr>role = ADMIN, cart = None\<rparr>],
          products = Map.empty,
          stores = [''cstore0000000000000000001'' \<mapsto> \<lparr>ownerId = ''cseller000000000000000001''\<rparr>],
          coupons = Map.empty,
          orders = [\<lparr>o_id = ''corder0000000000000000001'', orderNumber = ''ORD-1700000000000-k3x9q0a7b'',
                     total = Finite 100, status = PENDING,
                     userId = ''cbuyer0000000000000000001'', storeId = ''cstore0000000000000000001'',
                     paymentMethod = ''GOPAY'', isCouponUsed = False, coupon = None\<rparr>],
          orderItems = []\<rparr>"

definition orderR :: Order where
  "orderR = \<lparr>o_id = ''corder0000000000000000001'', orderNumber = ''ORD-1700000000000-k3x9q0a7b'',
             total = Finite 100, status = CONFIRMED,
             userId = ''cbuyer0000000000000000001'', storeId = ''cstore0000000000000000001'',
             paymentMethod = ''GOPAY'', isCouponUsed = False, coupon = None\<rparr>"

section \<open>Rounding and signs of numbers\<close>

text \<open>Evaluating the operations on numerals.\<close>

lemma floor_rat_numeral_div:
  "\<lfloor>(numeral a :: rat) / numeral b\<rfloor> = numeral a div numeral b"
  using floor_divide_of_int_eq [of "numeral a" "numeral b", where ?'a = rat] by simp

lemmas number_eval =
  jsAdd_def jsSub_def jsMul_def jsDiv_def jsNeg_def mathMax_def jsLess_def jsLessEq_def
  jsStrictNeq_def numOfInt_def roundRat_def round64_def normalize64_def roundHalfEven_def
  signBit_def isZero_def isInf_def valueOf_def signedZero_def signedInf_def
  normDown.simps normUp.simps Let_def floor_rat_numeral_div

lemma jsStrictNeq_Finite [simp]: "jsStrictNeq (Finite a) (Finite b) \<longleftrightarrow> a \<noteq> b"
  by (auto simp: jsStrictNeq_def isZero_def)

lemma scenario_arith:
  "numOfInt 1 = Finite 1" "numOfInt 2 = Finite 2"
  "jsMul (Finite 100) (Finite 2) = Finite 200" "jsMul (Finite 100) (Finite 1) = Finite 100"
  "jsMul (Finite 50) (Finite 1) = Finite 50" "jsMul (Finite 90) (Finite 1) = Finite 90"
  "jsAdd (Finite 0) (Finite 200) = Finite 200" "jsAdd (Finite 0) (Finite 50) = Finite 50"
  "jsAdd (Finite 0) (Finite 100) = Finite 100" "jsAdd (Finite 0) (Finite 90) = Finite 90"
  "jsAdd (Finite 200) (Finite 50) = Finite 250"
  "jsSub (Finite 200) (Finite 300) = Finite (- 100)"
  "jsSub (Finite 50) (Finite 300) = Finite (- 250)"
  "mathMax (Finite 0) (Finite (- 100)) = Finite 0"
  "mathMax (Finite 0) (Finite (- 250)) = Finite 0"
  by (simp_all add: number_eval)

lemma scenario_percent:
  "jsSub (Finite 1) (jsDiv (Finite 10) (Finite 100)) = Finite (8106479329266893 / 9007199254740992)"
  "jsMul (Finite 200) (Finite (8106479329266893 / 9007199254740992)) = Finite 180"
  "jsMul (Finite 50) (Finite (8106479329266893 / 9007199254740992)) = Finite 45"
  "jsSub (Finite 1) (jsDiv (Finite 30) (Finite 100)) = Finite (3152519739159347 / 4503599627370496)"
  "jsMul (Finite 90) (Finite (3152519739159347 / 4503599627370496)) =
     Finite (8866461766385663 / 140737488355328)"
  by (simp_all add: number_eval)

text \<open>
  Some values of binary64 arithmetic: the literals \<open>0.1\<close> and \<open>0.2\<close>, and
  \<open>0.1 * 3 = 0.1 + 0.2 = 0.30000000000000004\<close>.
\<close>

lemma binary64_examples:
  "roundRat (1 / 10) = Finite (3602879701896397 / 36028797018963968)"
  "roundRat (2 / 10) = Finite (3602879701896397 / 18014398509481984)"
  "numOfInt 3 = Finite 3"
  "jsMul (Finite (3602879701896397 / 36028797018963968)) (Finite 3) = Finite (1351079888211149 / 4503599627370496)"
  "jsAdd (Finite (3602879701896397 / 36028797018963968)) (Finite (3602879701896397 / 18014398509481984)) =
     Finite (1351079888211149 / 4503599627370496)"
  "jsAdd (Finite 0) (Finite (1351079888211149 / 4503599627370496)) = Finite (1351079888211149 / 4503599627370496)"
  by (simp_all add: number_eval)








lemma notNegative_simps [simp]:
  "notNegative NaN" "notNegative PosInf" "notNegative NegZero" "\<not> notNegative NegInf"
  "notNegative (Finite r) \<longleftrightarrow> 0 \<le> r"
  by (auto simp: notNegative_def jsLess_def valueOf_def)

lemma notNegative_signedZero [simp]: "notNegative (signedZero b)"
  by (simp add: signedZero_def)





lemma notNegative_cases:
  assumes "notNegative x"
  obtains "x = NaN" | "x = PosInf" | "x = NegZero" | r where "x = Finite r" "0 \<le> r"
  using assms by (cases x) auto






section \<open>Status transitions follow the table\<close>

lemma validTransitions_tableEdge: "t \<in> set (validTransitions s) \<longleftrightarrow> tableEdge s t"
  by (cases s) auto

lemma cancel_edge: "tableEdge s CANCELLED \<longleftrightarrow> s \<in> set [PENDING, CONFIRMED, PROCESSING]"
  by (cases s) auto

lemma refund_edge: "tableEdge s REFUNDED \<longleftrightarrow> s = DELIVERED"
  by (cases s) auto

lemma find_updateStatusRow:
  "find (\<lambda>r. o_id r = oid) rows = Some ord \<Longrightarrow>
   find (\<lambda>r. o_id r = oid) (updateStatusRow oid st rows) = Some (ord\<lparr>status := st\<rparr>)"
  by (induction rows) (auto split: if_splits)

lemma followsTable_refl: "followsTable r r"
  by (simp add: followsTable_def)

lemma list_all2_followsTable_refl: "list_all2 followsTable rows rows"
  by (simp add: list_all2_refl followsTable_refl)

lemma list_all2_updateStatusRow:
  "find (\<lambda>r. o_id r = oid) rows = Some ord \<Longrightarrow> tableEdge (status ord) st \<Longrightarrow>
   list_all2 followsTable rows (updateStatusRow oid st rows)"
proof (induction rows)
  case Nil
  then show ?case by simp
next
  case (Cons r rows)
  show ?case
  proof (cases "o_id r = oid")
    case True
    with Cons.prems have "r = ord" by simp
    with Cons.prems(2) have "followsTable r (r\<lparr>status := st\<rparr>)"
      by (simp add: followsTable_def)
    with True show ?thesis
      by (simp add: list_all2_followsTable_refl)
  next
    case False
    with Cons show ?thesis by (simp add: followsTable_refl)
  qed
qed

lemma updateOrderStatus_follows:
  "list_all2 followsTable (orders d) (orders (snd (updateOrderStatus oid st uid d)))"
  by (auto simp: updateOrderStatus_def setStatus_def findOrder_def validTransitions_tableEdge
       list_all2_followsTable_refl list_all2_updateStatusRow split: option.splits)

lemma cancelOrder_follows:
  "list_all2 followsTable (orders d) (orders (snd (cancelOrder oid uid d)))"
  by (auto simp: cancelOrder_def setStatus_def findOrder_def
       list_all2_followsTable_refl list_all2_updateStatusRow split: option.splits)

lemma refundOrder_follows:
  "list_all2 followsTable (orders d) (orders (snd (refundOrder oid d)))"
  by (auto simp: refundOrder_def setStatus_def findOrder_def
       list_all2_followsTable_refl list_all2_updateStatusRow split: option.splits)

lemma updateOrderStatus_fail_unchanged:
  "isl (fst (updateOrderStatus oid st uid d)) \<Longrightarrow> snd (updateOrderStatus oid st uid d) = d"
  by (auto simp: updateOrderStatus_def split: option.splits if_splits)

lemma cancelOrder_fail_unchanged:
  "isl (fst (cancelOrder oid uid d)) \<Longrightarrow> snd (cancelOrder oid uid d) = d"
  by (auto simp: cancelOrder_def split: option.splits if_splits)

lemma refundOrder_fail_unchanged:
  "isl (fst (refundOrder oid d)) \<Longrightarrow> snd (refundOrder oid d) = d"
  by (auto simp: refundOrder_def split: option.splits if_splits)

lemma namesStatus_from:
  "namesStatus (AppError (''Cannot change status from '' @ statusName s @ '' to '' @ statusName t) 400) s"
  unfolding namesStatus_def errorMessage.simps by (rule sublist_appendI)

lemma namesStatus_to:
  "namesStatus (AppError (''Cannot change status from '' @ statusName s @ '' to '' @ statusName t) 400) t"
  unfolding namesStatus_def errorMessage.simps
  using sublist_appendI [of "statusName t" "''Cannot change status from '' @ statusName s @ '' to ''" "[]"]
  by simp

lemma updateOrderStatus_owner:
  assumes "findOrder d oid = Some ord" and "stores d (storeId ord) = Some s" and "ownerId s = uid"
  shows "updateOrderStatus oid st uid d =
           (if tableEdge (status ord) st then (Inr (ord\<lparr>status := st\<rparr>), setStatus oid st d)
            else (Inl (AppError (''Cannot change status from '' @ statusName (status ord)
                                  @ '' to '' @ statusName st) 400), d))"
  using assms
  by (simp add: updateOrderStatus_def validTransitions_tableEdge createError_def)

lemma findOrder_setStatus:
  "findOrder d oid = Some ord \<Longrightarrow> findOrder (setStatus oid st d) oid = Some (ord\<lparr>status := st\<rparr>)"
  by (simp add: findOrder_def setStatus_def find_updateStatusRow)

lemma cancelOrder_not_cancellable:
  assumes "findOrder d oid = Some ord" and "stores d (storeId ord) = Some s"
    and "userId ord = uid \<or> ownerId s = uid" and "\<not> tableEdge (status ord) CANCELLED"
  shows "cancelOrder oid uid d = (Inl (AppError ''Order cannot be cancelled at this stage'' 400), d)"
  using assms by (auto simp: cancelOrder_def cancel_edge createError_def)

lemma refundOrder_not_delivered:
  assumes "findOrder d oid = Some ord" and "\<not> tableEdge (status ord) REFUNDED"
  shows "refundOrder oid d = (Inl (AppError ''Only delivered orders can be refunded'' 400), d)"
  using assms by (simp add: refundOrder_def refund_edge createError_def)

text \<open>
  C5, as the code has it.  Whatever \<open>updateOrderStatus\<close>, \<open>cancelOrder\<close> and
  \<open>refundOrder\<close> do to the order table, every row is left alone or has only its status
  moved along an edge of the transition table, and a call that fails leaves the whole
  store unchanged.  For an existing order and the owner of its store, \<open>updateOrderStatus\<close>
  performs a requested transition of the table and rejects every other one with a 400
  error whose message names the current and the requested status.  \<open>cancelOrder\<close> and
  \<open>refundOrder\<close> reject a transition outside the table with a 400 error of a fixed
  message (which names no status).
\<close>

theorem status_changes_follow_table:
  "list_all2 followsTable (orders d) (orders (snd (updateOrderStatus oid st uid d))) \<and>
   list_all2 followsTable (orders d) (orders (snd (cancelOrder oid uid d))) \<and>
   list_all2 followsTable (orders d) (orders (snd (refundOrder oid d))) \<and>
   (isl (fst (updateOrderStatus oid st uid d)) \<longrightarrow> snd (updateOrderStatus oid st uid d) = d) \<and>
   (isl (fst (cancelOrder oid uid d)) \<longrightarrow> snd (cancelOrder oid uid d) = d) \<and>
   (isl (fst (refundOrder oid d)) \<longrightarrow> snd (refundOrder oid d) = d) \<and>
   (findOrder d oid = Some ord \<and> stores d (storeId ord) = Some s \<and> ownerId s = uid \<longrightarrow>
      (if tableEdge (status ord) st
       then updateOrderStatus oid st uid d = (Inr (ord\<lparr>status := st\<rparr>), setStatus oid st d) \<and>
            findOrder (setStatus oid st d) oid = Some (ord\<lparr>status := st\<rparr>)
       else updateOrderStatus oid st uid d =
              (Inl (AppError (''Cannot change status from '' @ statusName (status ord)
                                @ '' to '' @ statusName st) 400), d) \<and>
            InvalidState (AppError (''Cannot change status from '' @ statusName (status ord)
                                @ '' to '' @ statusName st) 400) \<and>
            namesStatus (AppError (''Cannot change status from '' @ statusName (status ord)
                                @ '' to '' @ statusName st) 400) (status ord) \<and>
            namesStatus (AppError (''Cannot change status from '' @ statusName (status ord)
                                @ '' to '' @ statusName st) 400) st)) \<and>
   (findOrder d oid = Some ord \<and> stores d (storeId ord) = Some s \<and>
      (userId ord = uid \<or> ownerId s = uid) \<and> \<not> tableEdge (status ord) CANCELLED \<longrightarrow>
      cancelOrder oid uid d = (Inl (AppError ''Order cannot be cancelled at this stage'' 400), d)) \<and>
   (findOrder d oid = Some ord \<and> \<not> tableEdge (status ord) REFUNDED \<longrightarrow>
      refundOrder oid d = (Inl (AppError ''Only delivered orders can be refunded'' 400), d))"
proof -
  have upd: "findOrder d oid = Some ord \<and> stores d (storeId ord) = Some s \<and> ownerId s = uid \<longrightarrow>
      (if tableEdge (status ord) st
       then updateOrderStatus oid st uid d = (Inr (ord\<lparr>status := st\<rparr>), setStatus oid st d) \<and>
            findOrder (setStatus oid st d) oid = Some (ord\<lparr>status := st\<rparr>)
       else updateOrderStatus oid st uid d =
              (Inl (AppError (''Cannot change status from '' @ statusName (status ord)
                                @ '' to '' @ statusName st) 400), d) \<and>
            InvalidState (AppError (''Cannot change status from '' @ statusName (status ord)
                                @ '' to '' @ statusName st) 400) \<and>
            namesStatus (AppError (''Cannot change status from '' @ statusName (status ord)
                                @ '' to '' @ statusName st) 400) (status ord) \<and>
            namesStatus (AppError (''Cannot change status from '' @ statusName (status ord)
                                @ '' to '' @ statusName st) 400) st)"
    using namesStatus_from [of "status ord" st] namesStatus_to [of "status ord" st]
    by (simp add: updateOrderStatus_owner findOrder_setStatus del: append.simps)
  have can: "findOrder d oid = Some ord \<and> stores d (storeId ord) = Some s \<and>
      (userId ord = uid \<or> ownerId s = uid) \<and> \<not> tableEdge (status ord) CANCELLED \<longrightarrow>
      cancelOrder oid uid d = (Inl (AppError ''Order cannot be cancelled at this stage'' 400), d)"
    using cancelOrder_not_cancellable by blast
  have ref: "findOrder d oid = Some ord \<and> \<not> tableEdge (status ord) REFUNDED \<longrightarrow>
      refundOrder oid d = (Inl (AppError ''Only delivered orders can be refunded'' 400), d)"
    using refundOrder_not_delivered by blast
  show ?thesis
    using updateOrderStatus_follows cancelOrder_follows refundOrder_follows
      updateOrderStatus_fail_unchanged cancelOrder_fail_unchanged refundOrder_fail_unchanged
      upd can ref
    by blast
qed

text \<open>
  The theorem at the seller's requests on the delivered order \<open>o3\<close> (\<open>CONFIRMED\<close> is
  refused naming both statuses, \<open>REFUNDED\<close> is performed) and at the shipped order \<open>o2\<close>
  (neither cancellable nor refundable).
\<close>

theorem status_changes_follow_table_witness:
  "findOrder dbS ''o3'' = Some order3 \<and> findOrder dbS ''o2'' = Some order2 \<and>
   stores dbS ''S1'' = Some \<lparr>ownerId = ''seller1''\<rparr> \<and>
   updateOrderStatus ''o3'' CONFIRMED ''seller1'' dbS =
     (Inl (AppError ''Cannot change status from DELIVERED to CONFIRMED'' 400), dbS) \<and>
   updateOrderStatus ''o3'' REFUNDED ''seller1'' dbS =
     (Inr (order3\<lparr>status := REFUNDED\<rparr>), setStatus ''o3'' REFUNDED dbS) \<and>
   findOrder (setStatus ''o3'' REFUNDED dbS) ''o3'' = Some (order3\<lparr>status := REFUNDED\<rparr>) \<and>
   cancelOrder ''o2'' ''buyer1'' dbS =
     (Inl (AppError ''Order cannot be cancelled at this stage'' 400), dbS) \<and>
   refundOrder ''o2'' dbS = (Inl (AppError ''Only delivered orders can be refunded'' 400), dbS)"
proof -
  have f3: "findOrder dbS ''o3'' = Some order3" and f2: "findOrder dbS ''o2'' = Some order2"
    by (simp_all add: findOrder_def dbS_def order3_def order2_def)
  have s3: "stores dbS (storeId order3) = Some \<lparr>ownerId = ''seller1''\<rparr>"
    and s2: "stores dbS (storeId order2) = Some \<lparr>ownerId = ''seller1''\<rparr>"
    by (simp_all add: dbS_def order3_def order2_def)
  have s1: "stores dbS ''S1'' = Some \<lparr>ownerId = ''seller1''\<rparr>"
    by (simp add: dbS_def)
  have st: "status order3 = DELIVERED" "status order2 = SHIPPED" "userId order2 = ''buyer1''"
    by (simp_all add: order3_def order2_def)
  show ?thesis
    using status_changes_follow_table
            [of dbS "''o3''" CONFIRMED "''seller1''" order3 "\<lparr>ownerId = ''seller1''\<rparr>"]
      status_changes_follow_table
            [of dbS "''o3''" REFUNDED "''seller1''" order3 "\<lparr>ownerId = ''seller1''\<rparr>"]
      status_changes_follow_table
            [of dbS "''o2''" REFUNDED "''buyer1''" order2 "\<lparr>ownerId = ''seller1''\<rparr>"]
      f3 f2 s3 s2 s1 st
    by simp
qed

text \<open>
  C5 as stated fails at \<open>cancelOrder\<close>: the buyer's cancellation of the shipped order \<open>o2\<close>
  asks for \<open>SHIPPED \<rightarrow> CANCELLED\<close>, which is not in the table; the call fails with status
  code 400, and its message names neither the current nor the requested status.
\<close>

theorem cancel_error_names_no_status:
  "cancelOrder ''o2'' ''buyer1'' dbS =
     (Inl (AppError ''Order cannot be cancelled at this stage'' 400), dbS) \<and>
   findOrder dbS ''o2'' = Some order2 \<and> status order2 = SHIPPED \<and>
   \<not> tableEdge SHIPPED CANCELLED \<and>
   \<not> namesStatus (AppError ''Order cannot be cancelled at this stage'' 400) SHIPPED \<and>
   \<not> namesStatus (AppError ''Order cannot be cancelled at this stage'' 400) CANCELLED"
proof -
  have "\<not> namesStatus (AppError ''Order cannot be cancelled at this stage'' 400) SHIPPED"
    "\<not> namesStatus (AppError ''Order cannot be cancelled at this stage'' 400) CANCELLED"
    by code_simp+
  moreover have "cancelOrder ''o2'' ''buyer1'' dbS =
     (Inl (AppError ''Order cannot be cancelled at this stage'' 400), dbS)"
    by (simp add: cancelOrder_def findOrder_def dbS_def createError_def)
  moreover have "findOrder dbS ''o2'' = Some order2"
    by (simp add: findOrder_def dbS_def order2_def)
  ultimately show ?thesis by (simp add: order2_def)
qed

section \<open>Who may change a status\<close>

lemma idParamSchema_orderR: "idParamSchema ''corder0000000000000000001''"
  by (simp add: idParamSchema_def whiteSpace_def)

text \<open>
  C6 at an administrator who owns no shop and asks, through the route
  \<open>PUT /api/orders/:id/status\<close>, for the transition \<open>PENDING \<rightarrow> CONFIRMED\<close> of an order of
  the seller's shop, an edge of the table.  The caller is authenticated and the id of
  the order passes \<open>validateParams\<close>; \<open>updateOrderStatus\<close> then rejects the request with
  403, since it compares the caller with the owner of the store only.  The seller's own
  request for the same transition succeeds.
\<close>

theorem admin_status_update_denied:
  "users dbR ''cadmin0000000000000000001'' = Some \<lparr>role = ADMIN, cart = None\<rparr> \<and>
   idParamSchema ''corder0000000000000000001'' \<and>
   validateParams idParamSchema ''corder0000000000000000001'' = Inr () \<and>
   tableEdge PENDING CONFIRMED \<and>
   putOrderStatus ''cadmin0000000000000000001'' ''corder0000000000000000001'' CONFIRMED dbR =
     (Inl (AppError ''Access denied'' 403), dbR) \<and>
   fst (putOrderStatus ''cseller000000000000000001'' ''corder0000000000000000001'' CONFIRMED dbR) =
     Inr orderR"
  by (simp add: putOrderStatus_def authenticate_def validateParams_def idParamSchema_orderR
        updateOrderStatus_def findOrder_def dbR_def orderR_def createError_def)

section \<open>Validating and grouping the cart\<close>

lemma checkItem_good:
  "\<not> badItem d item \<Longrightarrow> \<exists>p. checkItem d item = Inr p \<and> p_storeId p = storeOf d item"
  by (auto simp: badItem_def checkItem_def storeOf_def split: option.splits)

lemma checkItem_bad:
  "badItem d item \<Longrightarrow> isl (checkItem d item)"
  by (auto simp: badItem_def checkItem_def split: option.splits)

lemma checkItem_error_kind:
  "checkItem d item = Inl e \<Longrightarrow>
     (if products d (productId item) = None then NotFound e else InvalidState e)"
  by (auto simp: checkItem_def createError_def split: option.splits if_splits)

lemma groupOf_snoc:
  "groupOf d (xs @ [x]) s =
     (if storeOf d x = s then groupOf d xs s @ [tagged s x] else groupOf d xs s)"
  by (simp add: groupOf_def)

lemma groupOf_unseen: "sid \<notin> storeOf d ` set xs \<Longrightarrow> groupOf d xs sid = []"
  by (auto simp: groupOf_def filter_empty_conv)

lemma map_of_groups: "map_of (map (\<lambda>s. (s, f s)) ks) sid = None \<longleftrightarrow> sid \<notin> set ks"
  by (simp add: map_of_eq_None_iff image_iff comp_def)

lemma pushItem_groups:
  assumes "storeOf d x = sid" and "storeOf d ` set xs \<subseteq> set ks"
  shows "pushItem sid (tagged sid x) (map (\<lambda>s. (s, groupOf d xs s)) ks) =
   map (\<lambda>s. (s, groupOf d (xs @ [x]) s)) (if sid \<in> set ks then ks else ks @ [sid])"
proof (cases "sid \<in> set ks")
  case True
  then show ?thesis
    using assms(1) by (simp add: pushItem_def map_of_groups groupOf_snoc comp_def)
next
  case False
  with assms(2) have "groupOf d xs sid = []" by (auto intro: groupOf_unseen)
  with False show ?thesis
    using assms(1) by (simp add: pushItem_def map_of_groups groupOf_snoc comp_def)
qed

lemma groupByStore_good:
  "list_all (\<lambda>it. \<not> badItem d it) rest \<Longrightarrow> storeOf d ` set xs \<subseteq> set ks \<Longrightarrow>
   groupByStore d rest (map (\<lambda>s. (s, groupOf d xs s)) ks) =
   Inr (map (\<lambda>s. (s, groupOf d (xs @ rest) s)) (storesIn d rest ks))"
proof (induction rest arbitrary: xs ks)
  case Nil
  then show ?case by simp
next
  case (Cons x rest)
  from Cons.prems obtain p where p: "checkItem d x = Inr p" "p_storeId p = storeOf d x"
    using checkItem_good [of d x] by auto
  from Cons.prems have rest: "list_all (\<lambda>it. \<not> badItem d it) rest" by simp
  let ?ks = "if storeOf d x \<in> set ks then ks else ks @ [storeOf d x]"
  from Cons.prems(2) have sub: "storeOf d ` set (xs @ [x]) \<subseteq> set ?ks" by auto
  have "groupByStore d (x # rest) (map (\<lambda>s. (s, groupOf d xs s)) ks) =
        groupByStore d rest
          (pushItem (storeOf d x) (tagged (storeOf d x) x) (map (\<lambda>s. (s, groupOf d xs s)) ks))"
    by (simp add: p)
  also have "\<dots> = groupByStore d rest (map (\<lambda>s. (s, groupOf d (xs @ [x]) s)) ?ks)"
    by (simp only: pushItem_groups [OF refl Cons.prems(2)])
  also have "\<dots> = Inr (map (\<lambda>s. (s, groupOf d ((xs @ [x]) @ rest) s)) (storesIn d rest ?ks))"
    by (rule Cons.IH [OF rest sub])
  finally show ?case by simp
qed

lemma groupByStore_bad:
  "find (badItem d) its = Some bad \<Longrightarrow>
   \<exists>e. checkItem d bad = Inl e \<and> groupByStore d its m = Inl e"
proof (induction its arbitrary: m)
  case Nil
  then show ?case by simp
next
  case (Cons x its)
  show ?case
  proof (cases "badItem d x")
    case True
    with Cons.prems have "x = bad" by simp
    with True checkItem_bad [of d bad] show ?thesis
      by (cases "checkItem d bad") simp_all
  next
    case False
    then obtain p where "checkItem d x = Inr p" using checkItem_good by blast
    with False Cons show ?thesis by simp
  qed
qed

lemma storesIn_set: "set (storesIn d its ks) = set ks \<union> storeOf d ` set its"
  by (induction its arbitrary: ks) auto

lemma storesIn_distinct: "distinct ks \<Longrightarrow> distinct (storesIn d its ks)"
  by (induction its arbitrary: ks) auto

lemma storesIn_nonempty: "its \<noteq> [] \<Longrightarrow> storesIn d its ks \<noteq> []"
  using storesIn_set [of d its ks] by (cases its) auto

lemma storeTotal_groupOf: "storeTotal (groupOf d its sid) = groupTotal d its sid"
  by (simp add: storeTotal_def groupOf_def groupTotal_def foldl_map tagged_def)

section \<open>One store group: the coupon block and the transaction\<close>

lemma createOrderItems_ok:
  "createOrderItems None n oid its tx =
     (Inr (), tx\<lparr>orderItems := orderItems tx @ map (itemRow oid) its\<rparr>)"
  by (induction its arbitrary: n tx) simp_all

lemma createOrderItems_fails:
  "n \<le> j \<Longrightarrow> j < n + length its \<Longrightarrow>
   fst (createOrderItems (Some j) n oid its tx) = Inl PrismaError"
proof (induction its arbitrary: n tx)
  case Nil
  then show ?case by simp
next
  case (Cons it its)
  show ?case
  proof (cases "j = n")
    case True
    then show ?thesis by simp
  next
    case False
    with Cons.prems have "Suc n \<le> j" "j < Suc n + length its" by simp_all
    from Cons.IH [OF this] False show ?thesis by simp
  qed
qed

lemma transaction_orderTx_ok:
  "transaction (orderTx None row its) d =
     (Inr row, d\<lparr>orders := orders d @ [row],
                 orderItems := orderItems d @ map (itemRow (o_id row)) its\<rparr>)"
  by (simp add: transaction_def orderTx_def createOrderItems_ok)

lemma transaction_orderTx_fail:
  assumes "j \<le> length its"
  shows "transaction (orderTx (Some j) row its) d = (Inl PrismaError, d)"
proof (cases "j = 0")
  case True
  then show ?thesis by (simp add: transaction_def orderTx_def)
next
  case False
  with assms have "1 \<le> j" "j < 1 + length its" by simp_all
  from createOrderItems_fails [OF this]
  have "fst (createOrderItems (Some j) 1 (o_id row) its (d\<lparr>orders := orders d @ [row]\<rparr>)) = Inl PrismaError" .
  with False show ?thesis
    by (auto simp: transaction_def orderTx_def split: prod.splits sum.splits)
qed

lemma applyCoupon_none:
  "couponFor data d = None \<Longrightarrow> applyCoupon data t s d = (Inr (s, False), d)"
  by (auto simp: couponFor_def applyCoupon_def split: option.splits if_splits)

lemma applyCoupon_inapplicable:
  "couponFor data d = Some c \<Longrightarrow> \<not> applicable t c \<Longrightarrow> applyCoupon data t s d = (Inr (s, False), d)"
  by (auto simp: couponFor_def applyCoupon_def applicable_def split: option.splits if_splits)

lemma applyCoupon_exhausted:
  "couponFor data d = Some c \<Longrightarrow> applicable t c \<Longrightarrow> exhausted c \<Longrightarrow>
   applyCoupon data t s d = (Inl limitExceeded, d)"
  by (auto simp: couponFor_def applyCoupon_def applicable_def exhausted_def limitExceeded_def
        createError_def split: option.splits if_splits)

lemma applyCoupon_applied:
  "couponFor data d = Some c \<Longrightarrow> applicable t c \<Longrightarrow> \<not> exhausted c \<Longrightarrow>
   applyCoupon data t s d = (Inr (discounted c s, True), bumpUsage data 1 d)"
  by (auto simp: couponFor_def applyCoupon_def applicable_def exhausted_def bumpUsage_def
        split: option.splits if_splits)

lemma processGroup_none:
  "couponFor data d = None \<Longrightarrow> failingWrite e = None \<Longrightarrow>
   processGroup uid data e sid g d =
     (Inr (newOrderRow uid data e sid (storeTotal g) False),
      d\<lparr>orders := orders d @ [newOrderRow uid data e sid (storeTotal g) False],
        orderItems := orderItems d @ map (itemRow (newOrderId e)) g\<rparr>)"
  by (simp add: processGroup_def applyCoupon_none transaction_orderTx_ok newOrderRow_def)

lemma processGroup_inapplicable:
  "couponFor data d = Some c \<Longrightarrow> \<not> applicable (now e) c \<Longrightarrow> failingWrite e = None \<Longrightarrow>
   processGroup uid data e sid g d =
     (Inr (newOrderRow uid data e sid (storeTotal g) False),
      d\<lparr>orders := orders d @ [newOrderRow uid data e sid (storeTotal g) False],
        orderItems := orderItems d @ map (itemRow (newOrderId e)) g\<rparr>)"
  by (simp add: processGroup_def applyCoupon_inapplicable transaction_orderTx_ok newOrderRow_def)

lemma processGroup_exhausted:
  "couponFor data d = Some c \<Longrightarrow> applicable (now e) c \<Longrightarrow> exhausted c \<Longrightarrow>
   processGroup uid data e sid g d = (Inl limitExceeded, d)"
  by (simp add: processGroup_def applyCoupon_exhausted)

lemma processGroup_applied:
  "couponFor data d = Some c \<Longrightarrow> applicable (now e) c \<Longrightarrow> \<not> exhausted c \<Longrightarrow>
   failingWrite e = None \<Longrightarrow>
   processGroup uid data e sid g d =
     (Inr (newOrderRow uid data e sid (discounted c (storeTotal g)) True),
      (bumpUsage data 1 d)
        \<lparr>orders := orders d @ [newOrderRow uid data e sid (discounted c (storeTotal g)) True],
         orderItems := orderItems d @ map (itemRow (newOrderId e)) g\<rparr>)"
  by (simp add: processGroup_def applyCoupon_applied transaction_orderTx_ok newOrderRow_def
        bumpUsage_def split: option.splits)

section \<open>The loop over the store groups\<close>

lemma couponFor_same: "coupons d' = coupons d \<Longrightarrow> couponFor data d' = couponFor data d"
  by (auto simp: couponFor_def split: option.splits)

lemma processGroups_plain:
  assumes nofail: "\<forall>i. failingWrite (env i) = None"
    and never: "couponFor data d = None \<or>
                (\<exists>c. couponFor data d = Some c \<and> (\<forall>i. \<not> applicable (now (env i)) c))"
  shows "processGroups uid data env k gs acc d =
           (Inr (acc @ expectedRows uid data env id False k gs),
            d\<lparr>orders := orders d @ expectedRows uid data env id False k gs,
              orderItems := orderItems d @ expectedItems env k gs\<rparr>)"
  using never
proof (induction gs arbitrary: k acc d)
  case Nil
  then show ?case by simp
next
  case (Cons a gs)
  obtain sid g where a: "a = (sid, g)" by (cases a)
  let ?row = "newOrderRow uid data (env k) sid (storeTotal g) False"
  let ?d2 = "d\<lparr>orders := orders d @ [?row],
               orderItems := orderItems d @ map (itemRow (newOrderId (env k))) g\<rparr>"
  have step: "processGroup uid data (env k) sid g d = (Inr ?row, ?d2)"
    using Cons.prems nofail processGroup_none processGroup_inapplicable by blast
  have "couponFor data ?d2 = couponFor data d" by (rule couponFor_same) simp
  with Cons.prems have "couponFor data ?d2 = None \<or>
      (\<exists>c. couponFor data ?d2 = Some c \<and> (\<forall>i. \<not> applicable (now (env i)) c))" by simp
  note ih = Cons.IH [OF this, of "Suc k" "acc @ [?row]"]
  have "processGroups uid data env k (a # gs) acc d =
        processGroups uid data env (Suc k) gs (acc @ [?row]) ?d2"
    by (simp only: a processGroups.simps step prod.case sum.case)
  also note ih
  finally show ?case by (simp add: a)
qed

lemma discounted_usage [simp]: "discounted (c\<lparr>usageCount := n\<rparr>) s = discounted c s"
  by (simp add: discounted_def)

lemma couponFor_bumpUsage:
  "couponFor data d = Some c \<Longrightarrow>
   couponFor data (bumpUsage data n d) = Some (c\<lparr>usageCount := usageCount c + n\<rparr>)"
  by (auto simp: couponFor_def bumpUsage_def split: option.splits if_splits)

lemma bumpUsage_twice:
  "bumpUsage data n (bumpUsage data m d) = bumpUsage data (m + n) d"
  by (auto simp: bumpUsage_def add.assoc split: option.splits)

lemma bumpUsage_orders:
  "bumpUsage data n (d\<lparr>orders := os, orderItems := ois\<rparr>) = (bumpUsage data n d)\<lparr>orders := os, orderItems := ois\<rparr>"
  by (auto simp: bumpUsage_def split: option.splits)

lemma bumpUsage_sel [simp]:
  "orders (bumpUsage data n d) = orders d" "orderItems (bumpUsage data n d) = orderItems d"
  "users (bumpUsage data n d) = users d" "products (bumpUsage data n d) = products d"
  "stores (bumpUsage data n d) = stores d"
  by (auto simp: bumpUsage_def split: option.splits)

lemma bumpUsage_zero: "bumpUsage data 0 d = d"
  by (auto simp: bumpUsage_def map_upd_triv split: option.splits)

lemma processGroups_applied:
  assumes nofail: "\<forall>i. failingWrite (env i) = None"
  shows "couponFor data d = Some c \<Longrightarrow> isActive c \<Longrightarrow>
         \<forall>i<length gs. now (env (k + i)) < expiresAt c \<Longrightarrow>
         usageLimit c \<le> 0 \<or> usageCount c + int (length gs) \<le> usageLimit c \<Longrightarrow>
         processGroups uid data env k gs acc d =
           (Inr (acc @ expectedRows uid data env (discounted c) True k gs),
            (bumpUsage data (int (length gs)) d)
              \<lparr>orders := orders d @ expectedRows uid data env (discounted c) True k gs,
               orderItems := orderItems d @ expectedItems env k gs\<rparr>)"
proof (induction gs arbitrary: k acc d c)
  case Nil
  then show ?case by (simp add: bumpUsage_zero)
next
  case (Cons a gs)
  obtain sid g where a: "a = (sid, g)" by (cases a)
  let ?row = "newOrderRow uid data (env k) sid (discounted c (storeTotal g)) True"
  let ?d2 = "(bumpUsage data 1 d)\<lparr>orders := orders d @ [?row],
               orderItems := orderItems d @ map (itemRow (newOrderId (env k))) g\<rparr>"
  let ?c2 = "c\<lparr>usageCount := usageCount c + 1\<rparr>"
  from Cons.prems(3) have "now (env k) < expiresAt c" by force
  with Cons.prems(2) have app: "applicable (now (env k)) c" by (simp add: applicable_def)
  from Cons.prems(4) have nex: "\<not> exhausted c" by (auto simp: exhausted_def)
  have step: "processGroup uid data (env k) sid g d = (Inr ?row, ?d2)"
    using processGroup_applied [OF Cons.prems(1) app nex] nofail by simp
  have c2: "couponFor data ?d2 = Some ?c2"
    using couponFor_bumpUsage [OF Cons.prems(1), of 1] couponFor_same [of ?d2 "bumpUsage data 1 d" data]
    by simp
  have act: "isActive ?c2" using Cons.prems(2) by simp
  have exp: "\<forall>i<length gs. now (env (Suc k + i)) < expiresAt ?c2"
    using Cons.prems(3) by fastforce
  have lim: "usageLimit ?c2 \<le> 0 \<or> usageCount ?c2 + int (length gs) \<le> usageLimit ?c2"
    using Cons.prems(4) by auto
  note ih = Cons.IH [OF c2 act exp lim, of "acc @ [?row]"]
  have "processGroups uid data env k (a # gs) acc d =
        processGroups uid data env (Suc k) gs (acc @ [?row]) ?d2"
    by (simp only: a processGroups.simps step prod.case sum.case)
  also note ih
  finally show ?case
    by (simp add: a bumpUsage_orders bumpUsage_twice add.commute)
qed

lemma createOrderItems_outcome:
  "createOrderItems fw n oid its tx = (Inl PrismaError, snd (createOrderItems fw n oid its tx)) \<and> fw \<noteq> None \<or>
   createOrderItems fw n oid its tx =
     (Inr (), tx\<lparr>orderItems := orderItems tx @ map (itemRow oid) its\<rparr>)"
proof (induction its arbitrary: n tx)
  case Nil
  then show ?case by simp
next
  case (Cons it its)
  show ?case
  proof (cases "fw = Some n")
    case True
    then show ?thesis by simp
  next
    case False
    with Cons.IH [of "Suc n" "tx\<lparr>orderItems := orderItems tx @ [itemRow oid it]\<rparr>"]
    show ?thesis by auto
  qed
qed

lemma transaction_orderTx_outcome:
  "transaction (orderTx fw row its) d = (Inl PrismaError, d) \<and> fw \<noteq> None \<or>
   transaction (orderTx fw row its) d =
     (Inr row, d\<lparr>orders := orders d @ [row],
                 orderItems := orderItems d @ map (itemRow (o_id row)) its\<rparr>)"
proof (cases "fw = Some 0")
  case True
  then show ?thesis by (simp add: transaction_def orderTx_def)
next
  case False
  with createOrderItems_outcome [of fw 1 "o_id row" its "d\<lparr>orders := orders d @ [row]\<rparr>"]
  show ?thesis
    by (auto simp: transaction_def orderTx_def split: prod.splits sum.splits)
qed

lemma processGroup_cases:
  obtains
    (exhausted) c where "couponFor data d = Some c" "applicable (now e) c" "exhausted c"
      "processGroup uid data e sid g d = (Inl limitExceeded, d)"
  | (failed_plain) "failingWrite e \<noteq> None"
      "processGroup uid data e sid g d = (Inl PrismaError, d)"
  | (failed_applied) c where "failingWrite e \<noteq> None"
      "couponFor data d = Some c" "applicable (now e) c" "\<not> exhausted c"
      "processGroup uid data e sid g d = (Inl PrismaError, bumpUsage data 1 d)"
  | (plain)
      "couponFor data d = None \<or> (\<exists>c. couponFor data d = Some c \<and> \<not> applicable (now e) c)"
      "processGroup uid data e sid g d =
         (Inr (newOrderRow uid data e sid (storeTotal g) False),
          d\<lparr>orders := orders d @ [newOrderRow uid data e sid (storeTotal g) False],
            orderItems := orderItems d @ map (itemRow (newOrderId e)) g\<rparr>)"
  | (applied) c where "couponFor data d = Some c" "applicable (now e) c" "\<not> exhausted c"
      "processGroup uid data e sid g d =
         (Inr (newOrderRow uid data e sid (discounted c (storeTotal g)) True),
          (bumpUsage data 1 d)
            \<lparr>orders := orders d @ [newOrderRow uid data e sid (discounted c (storeTotal g)) True],
             orderItems := orderItems d @ map (itemRow (newOrderId e)) g\<rparr>)"
proof (cases "couponFor data d")
  case None
  then have ac: "applyCoupon data (now e) (storeTotal g) d = (Inr (storeTotal g, False), d)"
    by (rule applyCoupon_none)
  from transaction_orderTx_outcome
    [of "failingWrite e" "newOrderRow uid data e sid (storeTotal g) False" g d]
  show ?thesis
  proof
    assume "transaction (orderTx (failingWrite e) (newOrderRow uid data e sid (storeTotal g) False) g) d
              = (Inl PrismaError, d) \<and> failingWrite e \<noteq> None"
    then show ?thesis using failed_plain by (simp add: processGroup_def ac)
  next
    assume "transaction (orderTx (failingWrite e) (newOrderRow uid data e sid (storeTotal g) False) g) d =
      (Inr (newOrderRow uid data e sid (storeTotal g) False),
       d\<lparr>orders := orders d @ [newOrderRow uid data e sid (storeTotal g) False],
         orderItems := orderItems d @ map (itemRow (o_id (newOrderRow uid data e sid (storeTotal g) False))) g\<rparr>)"
    then show ?thesis using plain None by (simp add: processGroup_def ac newOrderRow_def)
  qed
next
  case (Some c)
  show ?thesis
  proof (cases "applicable (now e) c")
    case False
    with Some have ac: "applyCoupon data (now e) (storeTotal g) d = (Inr (storeTotal g, False), d)"
      by (rule applyCoupon_inapplicable)
    from transaction_orderTx_outcome
      [of "failingWrite e" "newOrderRow uid data e sid (storeTotal g) False" g d]
    show ?thesis
    proof
      assume "transaction (orderTx (failingWrite e) (newOrderRow uid data e sid (storeTotal g) False) g) d
                = (Inl PrismaError, d) \<and> failingWrite e \<noteq> None"
      then show ?thesis using failed_plain by (simp add: processGroup_def ac)
    next
      assume "transaction (orderTx (failingWrite e) (newOrderRow uid data e sid (storeTotal g) False) g) d =
        (Inr (newOrderRow uid data e sid (storeTotal g) False),
         d\<lparr>orders := orders d @ [newOrderRow uid data e sid (storeTotal g) False],
           orderItems := orderItems d @ map (itemRow (o_id (newOrderRow uid data e sid (storeTotal g) False))) g\<rparr>)"
      then show ?thesis using plain Some False by (simp add: processGroup_def ac newOrderRow_def)
    qed
  next
    case True
    show ?thesis
    proof (cases "exhausted c")
      case ex: True
      from processGroup_exhausted [OF Some True ex] show ?thesis
        using exhausted Some True ex by blast
    next
      case nex: False
      have ac: "applyCoupon data (now e) (storeTotal g) d =
                  (Inr (discounted c (storeTotal g), True), bumpUsage data 1 d)"
        using Some True nex by (rule applyCoupon_applied)
      let ?row = "newOrderRow uid data e sid (discounted c (storeTotal g)) True"
      from transaction_orderTx_outcome [of "failingWrite e" ?row g "bumpUsage data 1 d"]
      show ?thesis
      proof
        assume "transaction (orderTx (failingWrite e) ?row g) (bumpUsage data 1 d)
                  = (Inl PrismaError, bumpUsage data 1 d) \<and> failingWrite e \<noteq> None"
        then show ?thesis using failed_applied Some True nex by (simp add: processGroup_def ac)
      next
        assume "transaction (orderTx (failingWrite e) ?row g) (bumpUsage data 1 d) =
          (Inr ?row,
           (bumpUsage data 1 d)\<lparr>orders := orders (bumpUsage data 1 d) @ [?row],
             orderItems := orderItems (bumpUsage data 1 d) @ map (itemRow (o_id ?row)) g\<rparr>)"
        then show ?thesis using applied Some True nex
          by (simp add: processGroup_def ac newOrderRow_def)
      qed
    qed
  qed
qed

lemma withinLimits_same: "coupons d' = coupons d \<Longrightarrow> withinLimits d' = withinLimits d"
  by (simp add: withinLimits_def)

lemma withinLimits_bump:
  assumes "withinLimits d" and "couponFor data d = Some c" and "\<not> exhausted c"
  shows "withinLimits (bumpUsage data 1 d)"
proof -
  from assms(2) obtain code where code: "couponCode data = Some code" "coupons d code = Some c"
    by (auto simp: couponFor_def split: option.splits if_splits)
  from assms(3) have "0 < usageLimit c \<longrightarrow> usageCount c + 1 \<le> usageLimit c"
    by (auto simp: exhausted_def)
  with assms(1) code show ?thesis
    by (auto simp: withinLimits_def bumpUsage_def)
qed

lemma discountOf_same: "coupons d' = coupons d \<Longrightarrow> discountOf data d' = discountOf data d"
  by (auto simp: discountOf_def couponFor_def fun_eq_iff split: option.splits)

lemma discountOf_bump:
  assumes "couponFor data d = Some c"
  shows "discountOf data (bumpUsage data n d) = discountOf data d"
  using couponFor_bumpUsage [OF assms, of n] assms
  by (simp add: discountOf_def fun_eq_iff)

lemma processGroup_frame:
  "users (snd (processGroup uid data e sid g d)) = users d \<and>
   products (snd (processGroup uid data e sid g d)) = products d \<and>
   stores (snd (processGroup uid data e sid g d)) = stores d"
  by (cases rule: processGroup_cases [of data d e uid sid g]) simp_all

lemma processGroup_withinLimits:
  assumes "withinLimits d"
  shows "withinLimits (snd (processGroup uid data e sid g d))"
proof (cases rule: processGroup_cases [of data d e uid sid g])
  case (exhausted c)
  with assms show ?thesis by simp
next
  case failed_plain
  with assms show ?thesis by simp
next
  case (failed_applied c)
  with assms withinLimits_bump show ?thesis by simp
next
  case plain
  with assms show ?thesis by (simp add: withinLimits_def)
next
  case (applied c)
  with withinLimits_bump [OF assms applied(1) applied(3)] show ?thesis
    by (simp add: withinLimits_def)
qed

lemma processGroup_discountOf:
  "discountOf data (snd (processGroup uid data e sid g d)) = discountOf data d"
proof (cases rule: processGroup_cases [of data d e uid sid g])
  case (exhausted c)
  then show ?thesis by simp
next
  case failed_plain
  then show ?thesis by simp
next
  case (failed_applied c)
  with discountOf_bump [OF failed_applied(2), of 1] show ?thesis by simp
next
  case plain
  have "discountOf data (d\<lparr>orders := orders d @ [newOrderRow uid data e sid (storeTotal g) False],
            orderItems := orderItems d @ map (itemRow (newOrderId e)) g\<rparr>) = discountOf data d"
    by (rule discountOf_same) simp
  with plain show ?thesis by simp
next
  case (applied c)
  have "discountOf data ((bumpUsage data 1 d)
            \<lparr>orders := orders d @ [newOrderRow uid data e sid (discounted c (storeTotal g)) True],
             orderItems := orderItems d @ map (itemRow (newOrderId e)) g\<rparr>) =
        discountOf data (bumpUsage data 1 d)"
    by (rule discountOf_same) simp
  with applied discountOf_bump [OF applied(1), of 1] show ?thesis by simp
qed

lemma processGroup_failure:
  assumes "processGroup uid data e sid g d = (Inl err, d')"
  shows "orders d' = orders d \<and> orderItems d' = orderItems d \<and>
         (err = limitExceeded \<and> d' = d \<or> err = PrismaError \<and> failingWrite e \<noteq> None)"
  using assms
  by (cases rule: processGroup_cases [of data d e uid sid g]) auto

lemma processGroup_success:
  assumes "processGroup uid data e sid g d = (Inr row, d')"
  shows "rowFor uid data (discountOf data d) e (sid, g) row \<and>
         orders d' = orders d @ [row] \<and>
         orderItems d' = orderItems d @ map (itemRow (o_id row)) g"
  using assms
  by (cases rule: processGroup_cases [of data d e uid sid g])
     (auto simp: rowFor_def newOrderRow_def discountOf_def)

lemma processGroups_frame:
  "processGroups uid data env k gs acc d = (r, d') \<Longrightarrow>
   users d' = users d \<and> products d' = products d \<and> stores d' = stores d"
proof (induction gs arbitrary: k acc d)
  case Nil
  then show ?case by simp
next
  case (Cons a gs)
  obtain sid g where a: "a = (sid, g)" by (cases a)
  obtain r1 d1 where step: "processGroup uid data (env k) sid g d = (r1, d1)"
    by (cases "processGroup uid data (env k) sid g d")
  from processGroup_frame [of uid data "env k" sid g d] step
  have fr: "users d1 = users d \<and> products d1 = products d \<and> stores d1 = stores d" by simp
  show ?case
  proof (cases r1)
    case (Inl e)
    with Cons.prems a step fr show ?thesis by simp
  next
    case (Inr row)
    with Cons.prems a step
    have "processGroups uid data env (Suc k) gs (acc @ [row]) d1 = (r, d')" by simp
    from Cons.IH [OF this] fr show ?thesis by simp
  qed
qed

lemma processGroups_withinLimits:
  "processGroups uid data env k gs acc d = (r, d') \<Longrightarrow> withinLimits d \<Longrightarrow> withinLimits d'"
proof (induction gs arbitrary: k acc d)
  case Nil
  then show ?case by simp
next
  case (Cons a gs)
  obtain sid g where a: "a = (sid, g)" by (cases a)
  obtain r1 d1 where step: "processGroup uid data (env k) sid g d = (r1, d1)"
    by (cases "processGroup uid data (env k) sid g d")
  from processGroup_withinLimits [OF Cons.prems(2), of uid data "env k" sid g] step
  have wl: "withinLimits d1" by simp
  show ?case
  proof (cases r1)
    case (Inl e)
    with Cons.prems a step wl show ?thesis by simp
  next
    case (Inr row)
    with Cons.prems a step
    have "processGroups uid data env (Suc k) gs (acc @ [row]) d1 = (r, d')" by simp
    from Cons.IH [OF this wl] show ?thesis .
  qed
qed

lemma processGroups_failure:
  "processGroups uid data env k gs acc d = (Inl err, d') \<Longrightarrow>
   err = limitExceeded \<or> err = PrismaError \<and> (\<exists>i. failingWrite (env i) \<noteq> None)"
proof (induction gs arbitrary: k acc d)
  case Nil
  then show ?case by simp
next
  case (Cons a gs)
  obtain sid g where a: "a = (sid, g)" by (cases a)
  obtain r1 d1 where step: "processGroup uid data (env k) sid g d = (r1, d1)"
    by (cases "processGroup uid data (env k) sid g d")
  show ?case
  proof (cases r1)
    case (Inl e)
    with Cons.prems a step have "e = err" by simp
    with processGroup_failure [of uid data "env k" sid g d err d1] step Inl
    show ?thesis by auto
  next
    case (Inr row)
    with Cons.prems a step
    have "processGroups uid data env (Suc k) gs (acc @ [row]) d1 = (Inl err, d')" by simp
    from Cons.IH [OF this] show ?thesis .
  qed
qed

lemma processGroups_success:
  "processGroups uid data env k gs acc d = (Inr os, d') \<Longrightarrow>
   \<exists>rows. os = acc @ rows \<and> rowsFor uid data (discountOf data d) env k gs rows \<and>
          orders d' = orders d @ rows \<and> orderItems d' = orderItems d @ itemsFor gs rows"
proof (induction gs arbitrary: k acc d)
  case Nil
  then show ?case by simp
next
  case (Cons a gs)
  obtain sid g where a: "a = (sid, g)" by (cases a)
  obtain r1 d1 where step: "processGroup uid data (env k) sid g d = (r1, d1)"
    by (cases "processGroup uid data (env k) sid g d")
  show ?case
  proof (cases r1)
    case (Inl e)
    with Cons.prems a step show ?thesis by simp
  next
    case (Inr row)
    with Cons.prems a step
    have "processGroups uid data env (Suc k) gs (acc @ [row]) d1 = (Inr os, d')" by simp
    from Cons.IH [OF this] obtain rows where rows:
      "os = (acc @ [row]) @ rows" "rowsFor uid data (discountOf data d1) env (Suc k) gs rows"
      "orders d' = orders d1 @ rows" "orderItems d' = orderItems d1 @ itemsFor gs rows"
      by blast
    from processGroup_discountOf [of data uid "env k" sid g d] step
    have disc: "discountOf data d1 = discountOf data d" by simp
    from processGroup_success [of uid data "env k" sid g d row d1] step Inr
    have row: "rowFor uid data (discountOf data d) (env k) (sid, g) row"
      "orders d1 = orders d @ [row]" "orderItems d1 = orderItems d @ map (itemRow (o_id row)) g"
      by simp_all
    have "os = acc @ (row # rows) \<and> rowsFor uid data (discountOf data d) env k (a # gs) (row # rows) \<and>
          orders d' = orders d @ (row # rows) \<and>
          orderItems d' = orderItems d @ itemsFor (a # gs) (row # rows)"
      using rows row disc by (simp add: a)
    then show ?thesis by blast
  qed
qed

lemma processGroups_append:
  "processGroups uid data env k (gs1 @ gs2) acc d =
     (case processGroups uid data env k gs1 acc d of
        (Inl e, d1) \<Rightarrow> (Inl e, d1)
      | (Inr os, d1) \<Rightarrow> processGroups uid data env (k + length gs1) gs2 os d1)"
proof (induction gs1 arbitrary: k acc d)
  case Nil
  then show ?case by simp
next
  case (Cons a gs1)
  obtain sid g where a: "a = (sid, g)" by (cases a)
  show ?case
    by (simp add: a Cons.IH split: prod.splits sum.splits)
qed

lemma rowFor_fields:
  assumes "rowFor uid data f e grp row"
  shows "storeId row = fst grp" and "userId row = uid" and "status row = PENDING"
    and "o_id row = newOrderId e"
    and "orderNumber row = makeOrderNumber (dateNow e) (randomSuffix e)"
    and "paymentMethod row = r_paymentMethod data"
    and "total row = (if isCouponUsed row then f (storeTotal (snd grp)) else storeTotal (snd grp))"
    and "coupon row = (if isCouponUsed row then couponCode data else None)"
proof -
  let ?new = "newOrderRow uid data e (fst grp)
              (if isCouponUsed row then f (storeTotal (snd grp)) else storeTotal (snd grp))
              (isCouponUsed row)"
  from assms have eq: "row = ?new" by (simp only: rowFor_def)
  have "storeId ?new = fst grp" "userId ?new = uid" "status ?new = PENDING"
    "o_id ?new = newOrderId e"
    "orderNumber ?new = makeOrderNumber (dateNow e) (randomSuffix e)"
    "paymentMethod ?new = r_paymentMethod data"
    "total ?new = (if isCouponUsed row then f (storeTotal (snd grp)) else storeTotal (snd grp))"
    "coupon ?new = (if isCouponUsed row then couponCode data else None)"
    by (simp_all add: newOrderRow_def)
  with arg_cong [OF eq, of storeId] arg_cong [OF eq, of userId] arg_cong [OF eq, of status]
    arg_cong [OF eq, of o_id] arg_cong [OF eq, of orderNumber] arg_cong [OF eq, of paymentMethod]
    arg_cong [OF eq, of total] arg_cong [OF eq, of coupon]
  show "storeId row = fst grp" and "userId row = uid" and "status row = PENDING"
    and "o_id row = newOrderId e"
    and "orderNumber row = makeOrderNumber (dateNow e) (randomSuffix e)"
    and "paymentMethod row = r_paymentMethod data"
    and "total row = (if isCouponUsed row then f (storeTotal (snd grp)) else storeTotal (snd grp))"
    and "coupon row = (if isCouponUsed row then couponCode data else None)"
    by (simp_all only:)
qed

lemma rowsFor_length: "rowsFor uid data f env k gs rows \<Longrightarrow> length rows = length gs"
  by (induction uid data f env k gs rows rule: rowsFor.induct) simp_all

lemma rowsFor_storeIds: "rowsFor uid data f env k gs rows \<Longrightarrow> map storeId rows = map fst gs"
  by (induction uid data f env k gs rows rule: rowsFor.induct)
     (auto dest: rowFor_fields(1))


lemma rowsFor_totals:
  "rowsFor uid data f env k gs rows \<Longrightarrow> \<forall>grp\<in>set gs. storeTotal (snd grp) = T (fst grp) \<Longrightarrow>
   \<forall>row\<in>set rows. total row = (if isCouponUsed row then f (T (storeId row)) else T (storeId row))"
proof (induction uid data f env k gs rows rule: rowsFor.induct)
  case (3 uid data f env k grp gs row rows)
  from "3.prems" have rf: "rowFor uid data f (env k) grp row"
    and rest: "rowsFor uid data f env (Suc k) gs rows" by simp_all
  from "3.prems"(2) have g: "storeTotal (snd grp) = T (fst grp)"
    and gs: "\<forall>grp\<in>set gs. storeTotal (snd grp) = T (fst grp)" by simp_all
  from rowFor_fields(1,7) [OF rf] g
  have "total row = (if isCouponUsed row then f (T (storeId row)) else T (storeId row))" by simp
  with "3.IH" [OF rest gs] show ?case by simp
qed simp_all

lemma rowsFor_items:
  "rowsFor uid data f env k gs rows \<Longrightarrow> \<forall>grp\<in>set gs. snd grp = G (fst grp) \<Longrightarrow>
   itemsFor gs rows = concat (map (\<lambda>row. map (itemRow (o_id row)) (G (storeId row))) rows)"
proof (induction uid data f env k gs rows rule: rowsFor.induct)
  case (3 uid data f env k grp gs row rows)
  from "3.prems" have rf: "rowFor uid data f (env k) grp row"
    and rest: "rowsFor uid data f env (Suc k) gs rows" by simp_all
  from "3.prems"(2) have g: "snd grp = G (fst grp)"
    and gs: "\<forall>grp\<in>set gs. snd grp = G (fst grp)" by simp_all
  from rowFor_fields(1) [OF rf] g have "snd grp = G (storeId row)" by simp
  with "3.IH" [OF rest gs] show ?case by simp
qed simp_all

section \<open>The checkout as a whole\<close>

lemma cartGroups_keys: "map fst (cartGroups d its) = storesIn d its []"
  by (simp add: cartGroups_def comp_def)

lemma cartGroups_distinct: "distinct (map fst (cartGroups d its))"
  by (simp add: cartGroups_keys storesIn_distinct)

lemma cartGroups_stores: "set (map fst (cartGroups d its)) = storeOf d ` set its"
  by (simp add: cartGroups_keys storesIn_set)

lemma cartGroups_groups: "\<forall>grp\<in>set (cartGroups d its). snd grp = groupOf d its (fst grp)"
  by (auto simp: cartGroups_def)

lemma cartGroups_totals:
  "\<forall>grp\<in>set (cartGroups d its). storeTotal (snd grp) = groupTotal d its (fst grp)"
  by (auto simp: cartGroups_def storeTotal_groupOf)

lemma cartGroups_nonempty: "its \<noteq> [] \<Longrightarrow> cartGroups d its \<noteq> []"
  by (simp add: cartGroups_def storesIn_nonempty)

lemma groupByStore_cart:
  assumes "\<forall>it\<in>set its. \<not> badItem d it"
  shows "groupByStore d its [] = Inr (cartGroups d its)"
proof -
  from assms have "list_all (\<lambda>it. \<not> badItem d it) its" by (simp add: list_all_iff)
  from groupByStore_good [OF this, of "[]" "[]"] show ?thesis
    by (simp add: cartGroups_def)
qed

lemma createOrder_valid:
  assumes "users d uid = Some u" and "cart u = Some c" and "items c \<noteq> []"
    and "\<forall>it\<in>set (items c). \<not> badItem d it"
  shows "createOrder uid data env d =
           (case processGroups uid data env 0 (cartGroups d (items c)) [] d of
              (Inl e, d') \<Rightarrow> (Inl e, d')
            | (Inr os, d') \<Rightarrow> (Inr (orderResult os), clearCart uid d'))"
  using assms(1-3) groupByStore_cart [OF assms(4)]
  by (auto simp: createOrder_def orderResult_def split: prod.splits sum.splits)

lemma orderResult_Many: "orderResult rows = Many os \<Longrightarrow> rows = os"
  by (simp add: orderResult_def split: if_splits)

lemma orderResult_Single: "orderResult rows = Single r \<Longrightarrow> rows = [r]"
  by (cases rows) (auto simp: orderResult_def split: if_splits)

lemma clearCart_sel:
  "orders (clearCart uid d) = orders d" "orderItems (clearCart uid d) = orderItems d"
  "coupons (clearCart uid d) = coupons d" "products (clearCart uid d) = products d"
  "stores (clearCart uid d) = stores d"
  by (auto simp: clearCart_def split: option.splits)

lemma clearCart_users:
  "users d uid = Some u \<Longrightarrow> users (clearCart uid d) = (users d)(uid \<mapsto> u\<lparr>cart := Some emptyCart\<rparr>)"
  by (simp add: clearCart_def)

lemma createOrder_failure_keeps_users:
  assumes "createOrder uid data env d = (Inl e, d')"
  shows "users d' = users d"
proof (cases "users d uid")
  case None
  with assms show ?thesis by (simp add: createOrder_def)
next
  case (Some u)
  let ?c = "case cart u of None \<Rightarrow> emptyCart | Some c \<Rightarrow> c"
  show ?thesis
  proof (cases "items ?c = []")
    case True
    with assms Some show ?thesis by (simp add: createOrder_def)
  next
    case False
    show ?thesis
    proof (cases "groupByStore d (items ?c) []")
      case (Inl err)
      with assms Some False show ?thesis by (simp add: createOrder_def)
    next
      case (Inr gs)
      obtain r1 d1 where pg: "processGroups uid data env 0 gs [] d = (r1, d1)"
        by (cases "processGroups uid data env 0 gs [] d")
      from processGroups_frame [OF pg] have "users d1 = users d" by simp
      with assms Some False Inr pg show ?thesis
        by (cases r1) (simp_all add: createOrder_def)
    qed
  qed
qed

section \<open>Evaluating the scenarios\<close>

lemma digitChar_values:
  "digitChar 0 = CHR ''0''" "digitChar 1 = CHR ''1''" "digitChar 2 = CHR ''2''"
  "digitChar 3 = CHR ''3''" "digitChar 4 = CHR ''4''" "digitChar 5 = CHR ''5''"
  "digitChar 6 = CHR ''6''" "digitChar 7 = CHR ''7''" "digitChar 8 = CHR ''8''"
  "digitChar 9 = CHR ''9''" "digitChar (Suc 0) = CHR ''1''"
  by code_simp+

lemma showNat_values:
  "showNat 0 = ''0''" "showNat (Suc 0) = ''1''"
  "showNat 1700000000000 = ''1700000000000''" "showNat 1700000000001 = ''1700000000001''"
  by (simp_all add: showNat.simps digitChar_values)

lemmas checkout_eval =
  createOrder_def checkItem_def pushItem_def tagged_def processGroup_def applyCoupon_def
  discounted_def storeTotal_def transaction_def orderTx_def itemRow_def newOrderRow_def
  makeOrderNumber_def clearCart_def emptyCart_def createError_def showNat_values
  scenario_arith scenario_percent binary64_examples

lemmas scenario_defs =
  db1_def db2_def db3_def cartAB_def cartStale_def save10_def gone50_def old20_def
  flat300_def env0_def envFail_def envSame_def reqNone_def req10_def reqGone_def reqOld_def
  reqFlat_def order250_def order200_def order50_def order180_def order45_def orderFree_def
  groupA_def groupB_def orderFreeB_def cart90_def save30_def db4_def req30_def order63_def
  cartDimes_def db5_def orderDimes_def

section \<open>A cart that fails validation\<close>

text \<open>
  C2.  When the cart of an existing user holds an item whose product is missing, out of
  stock, or priced differently from the cart, \<open>createOrder\<close> fails with the error of
  the first such item (status 404 when its product is missing, 400 otherwise) and
  returns the store exactly as it was: no order, no order item, the cart untouched.
  And whenever \<open>createOrder\<close> fails, for whatever reason, the user table (hence every
  cart) is as before: the cart is emptied only on the success path, after the loop over
  the groups.
\<close>

theorem invalid_cart_creates_nothing:
  assumes "users d uid = Some u" and "cart u = Some c"
    and "bad \<in> set (items c)" and "badItem d bad"
  shows "(\<exists>e first. createOrder uid data env d = (Inl e, d) \<and>
            find (badItem d) (items c) = Some first \<and> checkItem d first = Inl e \<and>
            (if products d (productId first) = None then NotFound e else InvalidState e)) \<and>
         (isl (fst (createOrder uid' data' env' d')) \<longrightarrow>
            users (snd (createOrder uid' data' env' d')) = users d')"
proof -
  from assms(3,4) obtain first where first: "find (badItem d) (items c) = Some first"
    by (cases "find (badItem d) (items c)") (auto simp: find_None_iff)
  from groupByStore_bad [OF first, of "[]"] obtain e where
    e: "checkItem d first = Inl e" "groupByStore d (items c) [] = Inl e" by blast
  from assms(3) have ne: "items c \<noteq> []" by auto
  have "createOrder uid data env d = (Inl e, d)"
    using assms(1,2) ne e(2) by (simp add: createOrder_def)
  with first e(1) checkItem_error_kind [OF e(1)]
  have part1: "\<exists>e first. createOrder uid data env d = (Inl e, d) \<and>
            find (badItem d) (items c) = Some first \<and> checkItem d first = Inl e \<and>
            (if products d (productId first) = None then NotFound e else InvalidState e)"
    by blast
  have part2: "isl (fst (createOrder uid' data' env' d')) \<longrightarrow>
            users (snd (createOrder uid' data' env' d')) = users d'"
  proof
    assume "isl (fst (createOrder uid' data' env' d'))"
    then obtain e' d'' where "createOrder uid' data' env' d' = (Inl e', d'')"
      by (cases "createOrder uid' data' env' d'") (auto simp: isl_def)
    with createOrder_failure_keeps_users [OF this] show
      "users (snd (createOrder uid' data' env' d')) = users d'" by simp
  qed
  from part1 part2 show ?thesis by blast
qed

text \<open>
  The theorem at buyer \<open>u2\<close>, whose second item has a stale price, and, for the second
  part, at the checkout of \<open>u1\<close> whose second group's transaction is rejected.
\<close>

theorem invalid_cart_creates_nothing_witness:
  "users db2 ''u2'' = Some \<lparr>role = USER, cart = Some cartStale\<rparr> \<and>
   \<lparr>productId = ''pB'', quantity = 1, price = Finite 40\<rparr> \<in> set (items cartStale) \<and>
   badItem db2 \<lparr>productId = ''pB'', quantity = 1, price = Finite 40\<rparr> \<and>
   createOrder ''u2'' req10 env0 db2 = (Inl (AppError ''Price changed for product B'' 400), db2) \<and>
   InvalidState (AppError ''Price changed for product B'' 400) \<and>
   isl (fst (createOrder ''u1'' req10 envFail db2)) \<and>
   users (snd (createOrder ''u1'' req10 envFail db2)) = users db2"
proof -
  let ?bad = "\<lparr>productId = ''pB'', quantity = 1, price = Finite 40\<rparr>"
  have h1: "users db2 ''u2'' = Some \<lparr>role = USER, cart = Some cartStale\<rparr>"
    by (simp add: db2_def)
  have h2: "cart \<lparr>role = USER, cart = Some cartStale\<rparr> = Some cartStale" by simp
  have h3: "?bad \<in> set (items cartStale)" by (simp add: cartStale_def)
  have h4: "badItem db2 ?bad" by (simp add: badItem_def db2_def)
  have fails: "isl (fst (createOrder ''u1'' req10 envFail db2))"
    by (simp add: checkout_eval scenario_defs)
  from invalid_cart_creates_nothing [OF h1 h2 h3 h4, of req10 env0 "''u1''" req10 envFail db2] fails
  obtain e first where r: "createOrder ''u2'' req10 env0 db2 = (Inl e, db2)"
      "find (badItem db2) (items cartStale) = Some first" "checkItem db2 first = Inl e"
    and keep: "users (snd (createOrder ''u1'' req10 envFail db2)) = users db2"
    by blast
  have "find (badItem db2) (items cartStale) = Some ?bad"
    by (simp add: cartStale_def badItem_def db2_def)
  with r(2) have "first = ?bad" by simp
  with r(3) have "e = AppError ''Price changed for product B'' 400"
    by (simp add: checkItem_def db2_def createError_def)
  with r(1) h1 h3 h4 fails keep show ?thesis by simp
qed

section \<open>One order per store\<close>

lemma card_distinct_map: "distinct (map f xs) \<Longrightarrow> length xs = card (f ` set xs)"
  by (metis distinct_card length_map set_map)

lemma cartGroups_length: "length (cartGroups d its) = card (storeOf d ` set its)"
  using distinct_card [OF storesIn_distinct [of "[]" d its]] storesIn_set [of d its "[]"]
  by (simp add: cartGroups_def)

lemma limitExceeded_not_Prisma: "limitExceeded \<noteq> PrismaError"
  by (simp add: limitExceeded_def)

lemma processGroup_limitExceeded:
  assumes "processGroup uid data e sid g d = (Inl limitExceeded, d')"
  shows "\<exists>cp. couponFor data d' = Some cp \<and> applicable (now e) cp \<and> exhausted cp"
  using assms limitExceeded_not_Prisma
  by (cases rule: processGroup_cases [of data d e uid sid g]) auto

lemma processGroups_limitExceeded:
  "processGroups uid data env k gs acc d = (Inl limitExceeded, d') \<Longrightarrow>
   \<exists>cp i. k \<le> i \<and> i < k + length gs \<and>
      couponFor data d' = Some cp \<and> applicable (now (env i)) cp \<and> exhausted cp"
proof (induction gs arbitrary: k acc d)
  case Nil
  then show ?case by simp
next
  case (Cons a gs)
  obtain sid g where a: "a = (sid, g)" by (cases a)
  obtain r1 d1 where step: "processGroup uid data (env k) sid g d = (r1, d1)"
    by (cases "processGroup uid data (env k) sid g d")
  show ?case
  proof (cases r1)
    case (Inl e)
    with Cons.prems a step have "e = limitExceeded" "d1 = d'" by simp_all
    with processGroup_limitExceeded [of uid data "env k" sid g d d'] step Inl
    obtain cp where "couponFor data d' = Some cp" "applicable (now (env k)) cp" "exhausted cp"
      by blast
    then have "k \<le> k \<and> k < k + length (a # gs) \<and>
      couponFor data d' = Some cp \<and> applicable (now (env k)) cp \<and> exhausted cp" by simp
    then show ?thesis by blast
  next
    case (Inr row)
    with Cons.prems a step
    have "processGroups uid data env (Suc k) gs (acc @ [row]) d1 = (Inl limitExceeded, d')"
      by simp
    from Cons.IH [OF this] obtain cp i where
      "Suc k \<le> i" "i < Suc k + length gs" "couponFor data d' = Some cp"
      "applicable (now (env i)) cp" "exhausted cp" by blast
    then have "k \<le> i \<and> i < k + length (a # gs) \<and>
      couponFor data d' = Some cp \<and> applicable (now (env i)) cp \<and> exhausted cp" by simp
    then show ?thesis by blast
  qed
qed

lemma createOrder_valid_failure:
  assumes "users d uid = Some u" and "cart u = Some c" and "items c \<noteq> []"
    and "\<forall>it\<in>set (items c). \<not> badItem d it"
    and "\<forall>i. failingWrite (env i) = None"
    and "isl (fst (createOrder uid data env d))"
  shows "fst (createOrder uid data env d) = Inl limitExceeded \<and>
         (\<exists>cp i. i < card (storeOf d ` set (items c)) \<and>
                 couponFor data (snd (createOrder uid data env d)) = Some cp \<and>
                 applicable (now (env i)) cp \<and> exhausted cp)"
proof -
  let ?gs = "cartGroups d (items c)"
  note co = createOrder_valid [OF assms(1-4), of data env]
  obtain r1 d1 where pg: "processGroups uid data env 0 ?gs [] d = (r1, d1)"
    by (cases "processGroups uid data env 0 ?gs [] d")
  show ?thesis
  proof (cases r1)
    case (Inl e)
    with processGroups_failure [of uid data env 0 ?gs "[]" d e d1] pg assms(5)
    have e: "e = limitExceeded" by auto
    with processGroups_limitExceeded [of uid data env 0 ?gs "[]" d d1] pg Inl
    have "\<exists>cp i. i < card (storeOf d ` set (items c)) \<and>
            couponFor data d1 = Some cp \<and> applicable (now (env i)) cp \<and> exhausted cp"
      by (simp add: cartGroups_length)
    with co pg Inl e show ?thesis by simp
  next
    case (Inr os)
    with co pg assms(6) show ?thesis by simp
  qed
qed

text \<open>
  C1, as the code has it.  For an existing user whose cart is non-empty and holds only
  items of existing, in-stock products at their live price, and when the store rejects
  no write, \<open>createOrder\<close> either fails with "Coupon usage limit exceeded", the request
  then naming a coupon that (in the store the failed call leaves) is active, unexpired
  at the clock reading of one of the groups, and used up; or it succeeds, and then: it
  has appended exactly one order per distinct store of the cart (the orders' stores are
  pairwise distinct and are the stores of the cart's products); each order's total is
  the subtotal of the cart items of its store (price times quantity, added up from 0 in
  cart order in the numbers of the source), discounted by the coupon exactly when the
  order records the coupon as used; the order items appended are, order by order, the
  cart items of that order's store; the result is the single order when there is one and
  the list otherwise; and the cart is emptied.
\<close>

theorem createOrder_one_order_per_store:
  assumes "users d uid = Some u" and "cart u = Some c" and "items c \<noteq> []"
    and "\<forall>it\<in>set (items c). \<not> badItem d it"
    and "\<forall>i. failingWrite (env i) = None"
  shows "(fst (createOrder uid data env d) = Inl limitExceeded \<and>
          (\<exists>cp i. i < card (storeOf d ` set (items c)) \<and>
             couponFor data (snd (createOrder uid data env d)) = Some cp \<and>
             isActive cp \<and> now (env i) < expiresAt cp \<and>
             0 < usageLimit cp \<and> usageLimit cp \<le> usageCount cp)) \<or>
    (\<exists>rows d'. createOrder uid data env d = (Inr (orderResult rows), d') \<and>
       orders d' = orders d @ rows \<and>
       length rows = card (storeOf d ` set (items c)) \<and>
       distinct (map storeId rows) \<and>
       set (map storeId rows) = storeOf d ` set (items c) \<and>
       (\<forall>row\<in>set rows.
          total row = (if isCouponUsed row
                       then discountOf data d (groupTotal d (items c) (storeId row))
                       else groupTotal d (items c) (storeId row))) \<and>
       orderItems d' = orderItems d @
         concat (map (\<lambda>row. map (itemRow (o_id row)) (groupOf d (items c) (storeId row))) rows) \<and>
       users d' = (users d)(uid \<mapsto> u\<lparr>cart := Some emptyCart\<rparr>))"
proof -
  let ?gs = "cartGroups d (items c)"
  note co = createOrder_valid [OF assms(1-4), of data env]
  obtain r1 d1 where pg: "processGroups uid data env 0 ?gs [] d = (r1, d1)"
    by (cases "processGroups uid data env 0 ?gs [] d")
  show ?thesis
  proof (cases r1)
    case (Inl e)
    with co pg have "isl (fst (createOrder uid data env d))" by simp
    from createOrder_valid_failure [OF assms this]
    have "fst (createOrder uid data env d) = Inl limitExceeded \<and>
          (\<exists>cp i. i < card (storeOf d ` set (items c)) \<and>
             couponFor data (snd (createOrder uid data env d)) = Some cp \<and>
             isActive cp \<and> now (env i) < expiresAt cp \<and>
             0 < usageLimit cp \<and> usageLimit cp \<le> usageCount cp)"
      unfolding applicable_def exhausted_def by blast
    then show ?thesis by (rule disjI1)
  next
    case (Inr os)
    with processGroups_success [of uid data env 0 ?gs "[]" d os d1] pg
    obtain rows where rows: "os = rows" "rowsFor uid data (discountOf data d) env 0 ?gs rows"
      "orders d1 = orders d @ rows" "orderItems d1 = orderItems d @ itemsFor ?gs rows"
      by auto
    from processGroups_frame [OF pg] have us: "users d1 = users d" by simp
    have ids: "map storeId rows = map fst ?gs" using rows(2) by (rule rowsFor_storeIds)
    have dist: "distinct (map storeId rows)" by (simp only: ids cartGroups_distinct)
    have sts: "set (map storeId rows) = storeOf d ` set (items c)"
      by (simp only: ids cartGroups_stores)
    have len: "length rows = card (storeOf d ` set (items c))"
      using card_distinct_map [OF dist] sts by simp
    have tot: "\<forall>row\<in>set rows.
          total row = (if isCouponUsed row
                       then discountOf data d (groupTotal d (items c) (storeId row))
                       else groupTotal d (items c) (storeId row))"
      using rowsFor_totals [OF rows(2) cartGroups_totals] .
    have its: "itemsFor ?gs rows =
         concat (map (\<lambda>row. map (itemRow (o_id row)) (groupOf d (items c) (storeId row))) rows)"
      using rowsFor_items [OF rows(2) cartGroups_groups] .
    have res: "createOrder uid data env d = (Inr (orderResult rows), clearCart uid d1)"
      using co pg Inr rows(1) by simp
    have u1: "users d1 uid = Some u" using us assms(1) by simp
    have "orders (clearCart uid d1) = orders d @ rows"
      "orderItems (clearCart uid d1) = orderItems d @
         concat (map (\<lambda>row. map (itemRow (o_id row)) (groupOf d (items c) (storeId row))) rows)"
      "users (clearCart uid d1) = (users d)(uid \<mapsto> u\<lparr>cart := Some emptyCart\<rparr>)"
      using rows(3,4) its clearCart_users [OF u1] us by (simp_all add: clearCart_sel)
    with res len dist sts tot show ?thesis by blast
  qed
qed

lemma u1_db1: "users db1 ''u1'' = Some \<lparr>role = USER, cart = Some cartAB\<rparr>"
  by (simp add: db1_def db2_def)

lemma u1_db2: "users db2 ''u1'' = Some \<lparr>role = USER, cart = Some cartAB\<rparr>"
  by (simp add: db2_def)

lemma cartAB_good1: "list_all (\<lambda>it. \<not> badItem db1 it) (items cartAB)"
  by (simp add: cartAB_def badItem_def db1_def)

lemma cartAB_good2: "list_all (\<lambda>it. \<not> badItem db2 it) (items cartAB)"
  by (simp add: cartAB_def badItem_def db2_def)

lemma env0_nofail: "\<forall>i. failingWrite (env0 i) = None"
  by (simp add: env0_def)

lemma cartAB_items_ne: "items cartAB \<noteq> []"
  by (simp add: cartAB_def)

lemma cartAB_ball2: "\<forall>it\<in>set (items cartAB). \<not> badItem db2 it"
  using cartAB_good2 by (simp add: list_all_iff)

lemma cart_u1: "cart \<lparr>role = USER, cart = Some cartAB\<rparr> = Some cartAB"
  by simp

lemma stores_cartAB2: "storesIn db2 (items cartAB) [] = [''S1'', ''S2'']"
  by (simp add: cartAB_def storeOf_def db2_def)

lemma card_cartAB2: "card (storeOf db2 ` set (items cartAB)) = 2"
  using cartGroups_length [of db2 "items cartAB"]
  by (simp add: cartGroups_def stores_cartAB2)

lemma groupTotals_cartAB2:
  "groupTotal db2 (items cartAB) ''S1'' = Finite 200"
  "groupTotal db2 (items cartAB) ''S2'' = Finite 50"
  by (simp_all add: groupTotal_def cartAB_def storeOf_def db2_def scenario_arith)

lemma cartAB_ball1: "\<forall>it\<in>set (items cartAB). \<not> badItem db1 it"
  using cartAB_good1 by (simp add: list_all_iff)

lemma groupTotal_cartAB1: "groupTotal db1 (items cartAB) ''S1'' = Finite 250"
  by (simp add: groupTotal_def cartAB_def storeOf_def db1_def scenario_arith)

text \<open>
  The theorem at two checkouts of the cart of two \<open>pA\<close> at 100 and one \<open>pB\<close> at 50.
  When both products belong to store \<open>S1\<close> and the request has no coupon (the
  single-store scenario of the specification): one order of total 250.  When \<open>pB\<close>
  belongs to store \<open>S2\<close> and the request names \<open>SAVE10\<close>: two orders, for \<open>S1\<close> and \<open>S2\<close>,
  both recording the coupon, of totals 180 and 45.
\<close>

theorem createOrder_one_order_per_store_witness:
  "users db1 ''u1'' = Some \<lparr>role = USER, cart = Some cartAB\<rparr> \<and>
   list_all (\<lambda>it. \<not> badItem db1 it) (items cartAB) \<and>
   fst (createOrder ''u1'' reqNone env0 db1) = Inr (Single order250) \<and>
   orders (snd (createOrder ''u1'' reqNone env0 db1)) = [order250] \<and>
   card (storeOf db1 ` set (items cartAB)) = 1 \<and>
   total order250 = groupTotal db1 (items cartAB) ''S1'' \<and>
   total order250 = Finite 250 \<and>
   users db2 ''u1'' = Some \<lparr>role = USER, cart = Some cartAB\<rparr> \<and>
   list_all (\<lambda>it. \<not> badItem db2 it) (items cartAB) \<and>
   fst (createOrder ''u1'' req10 env0 db2) = Inr (Many [order180, order45]) \<and>
   orders (snd (createOrder ''u1'' req10 env0 db2)) = [order180, order45] \<and>
   card (storeOf db2 ` set (items cartAB)) = 2 \<and>
   map storeId [order180, order45] = [''S1'', ''S2''] \<and>
   total order180 = discountOf req10 db2 (groupTotal db2 (items cartAB) ''S1'') \<and>
   total order45 = discountOf req10 db2 (groupTotal db2 (items cartAB) ''S2'') \<and>
   map total [order180, order45] = [Finite 180, Finite 45]"
proof -
  have ev1: "fst (createOrder ''u1'' reqNone env0 db1) = Inr (Single order250)"
    and ev2: "fst (createOrder ''u1'' req10 env0 db2) = Inr (Many [order180, order45])"
    by (simp_all add: checkout_eval scenario_defs)
  have os: "orders db1 = []" "orders db2 = []" by (simp_all add: db1_def db2_def)
  from ev1 have "fst (createOrder ''u1'' reqNone env0 db1) \<noteq> Inl limitExceeded" by simp
  with createOrder_one_order_per_store
         [OF u1_db1 cart_u1 cartAB_items_ne cartAB_ball1 env0_nofail, of reqNone]
  obtain rows d' where r: "createOrder ''u1'' reqNone env0 db1 = (Inr (orderResult rows), d')"
    "orders d' = orders db1 @ rows" "length rows = card (storeOf db1 ` set (items cartAB))"
    and t: "\<forall>row\<in>set rows.
          total row = (if isCouponUsed row
                       then discountOf reqNone db1 (groupTotal db1 (items cartAB) (storeId row))
                       else groupTotal db1 (items cartAB) (storeId row))"
    by blast
  from r(1) ev1 have "orderResult rows = Single order250" by simp
  then have rows: "rows = [order250]" by (rule orderResult_Single)
  have p1: "orders (snd (createOrder ''u1'' reqNone env0 db1)) = [order250]"
    "card (storeOf db1 ` set (items cartAB)) = 1"
    using r rows os by simp_all
  have q1: "total order250 = groupTotal db1 (items cartAB) ''S1''"
    using t by (simp add: rows order250_def)
  from ev2 have "fst (createOrder ''u1'' req10 env0 db2) \<noteq> Inl limitExceeded" by simp
  with createOrder_one_order_per_store
         [OF u1_db2 cart_u1 cartAB_items_ne cartAB_ball2 env0_nofail, of req10]
  obtain rows2 d2 where r2: "createOrder ''u1'' req10 env0 db2 = (Inr (orderResult rows2), d2)"
    "orders d2 = orders db2 @ rows2" "length rows2 = card (storeOf db2 ` set (items cartAB))"
    and t2: "\<forall>row\<in>set rows2.
          total row = (if isCouponUsed row
                       then discountOf req10 db2 (groupTotal db2 (items cartAB) (storeId row))
                       else groupTotal db2 (items cartAB) (storeId row))"
    by blast
  from r2(1) ev2 have "orderResult rows2 = Many [order180, order45]" by simp
  then have rows2: "rows2 = [order180, order45]" by (rule orderResult_Many)
  have p2: "orders (snd (createOrder ''u1'' req10 env0 db2)) = [order180, order45]"
    "card (storeOf db2 ` set (items cartAB)) = 2"
    using r2 rows2 os by simp_all
  have u: "isCouponUsed order180" "isCouponUsed order45"
    "storeId order180 = ''S1''" "storeId order45 = ''S2''"
    by (simp_all add: order180_def order45_def)
  have q2: "total order180 = discountOf req10 db2 (groupTotal db2 (items cartAB) ''S1'')"
    "total order45 = discountOf req10 db2 (groupTotal db2 (items cartAB) ''S2'')"
    using t2 by (simp_all add: rows2 u)
  have v: "total order250 = Finite 250" "total order180 = Finite 180" "total order45 = Finite 45"
    by (simp_all add: order250_def order180_def order45_def)
  show ?thesis
    using u1_db1 cartAB_good1 ev1 p1 q1 u1_db2 cartAB_good2 ev2 p2 q2 u(3,4) v by simp
qed

text \<open>
  C1 as stated fails when the request names a coupon that is active, unexpired and used
  up: the cart of \<open>u1\<close> is valid, and the checkout with coupon \<open>GONE50\<close> fails and
  creates no order.
\<close>

theorem exhausted_coupon_fails_valid_cart:
  "users db2 ''u1'' = Some \<lparr>role = USER, cart = Some cartAB\<rparr> \<and>
   items cartAB = [\<lparr>productId = ''pA'', quantity = 2, price = Finite 100\<rparr>,
                   \<lparr>productId = ''pB'', quantity = 1, price = Finite 50\<rparr>] \<and>
   \<not> badItem db2 \<lparr>productId = ''pA'', quantity = 2, price = Finite 100\<rparr> \<and>
   \<not> badItem db2 \<lparr>productId = ''pB'', quantity = 1, price = Finite 50\<rparr> \<and>
   createOrder ''u1'' reqGone env0 db2 =
     (Inl (AppError ''Coupon usage limit exceeded'' 400), db2)"
proof -
  have "createOrder ''u1'' reqGone env0 db2 =
     (Inl (AppError ''Coupon usage limit exceeded'' 400), db2)"
    by (simp add: createOrder_def db2_def cartAB_def reqGone_def env0_def checkItem_def
          pushItem_def tagged_def processGroup_def applyCoupon_def storeTotal_def gone50_def
          createError_def)
  with u1_db2 cartAB_good2 show ?thesis by (simp add: cartAB_def)
qed

lemma expectedRows_storeIds: "map storeId (expectedRows uid data env f used k gs) = map fst gs"
  by (induction gs arbitrary: k) (auto simp: newOrderRow_def)

lemma expectedRows_totals:
  "map total (expectedRows uid data env f used k gs) = map (\<lambda>grp. f (storeTotal (snd grp))) gs"
  by (induction gs arbitrary: k) (auto simp: newOrderRow_def)

lemma expectedRows_used:
  "list_all (\<lambda>row. isCouponUsed row = used \<and> coupon row = (if used then couponCode data else None))
     (expectedRows uid data env f used k gs)"
  by (induction gs arbitrary: k) (auto simp: newOrderRow_def)

lemma expectedRows_length: "length (expectedRows uid data env f used k gs) = length gs"
  by (induction gs arbitrary: k) auto

lemma cartGroups_map_totals:
  "map (\<lambda>grp. f (storeTotal (snd grp))) (cartGroups d its) =
   map (\<lambda>sid. f (groupTotal d its sid)) (storesIn d its [])"
  by (simp add: cartGroups_def comp_def storeTotal_groupOf)

lemma clearCart_rows:
  "clearCart uid (d\<lparr>orders := os, orderItems := ois\<rparr>) = (clearCart uid d)\<lparr>orders := os, orderItems := ois\<rparr>"
  by (auto simp: clearCart_def split: option.splits)

lemma unusable_coupon_plain:
  assumes "users d uid = Some u" and "cart u = Some c" and "items c \<noteq> []"
    and "\<forall>it\<in>set (items c). \<not> badItem d it"
    and "\<forall>i. failingWrite (env i) = None"
    and "couponCode data = Some code"
    and "coupons d code = None \<or>
         (\<exists>cp. coupons d code = Some cp \<and> (\<not> isActive cp \<or> (\<forall>i. expiresAt cp \<le> now (env i))))"
  defines "rows \<equiv> expectedRows uid data env id False 0 (cartGroups d (items c))"
  shows "createOrder uid data env d =
           (Inr (orderResult rows),
            (clearCart uid d)\<lparr>orders := orders d @ rows,
               orderItems := orderItems d @ expectedItems env 0 (cartGroups d (items c))\<rparr>) \<and>
         length rows = card (storeOf d ` set (items c)) \<and>
         map storeId rows = storesIn d (items c) [] \<and>
         map total rows = map (groupTotal d (items c)) (storesIn d (items c) []) \<and>
         list_all (\<lambda>row. isCouponUsed row = False \<and> coupon row = None) rows \<and>
         coupons (snd (createOrder uid data env d)) = coupons d"
proof -
  let ?gs = "cartGroups d (items c)"
  have never: "couponFor data d = None \<or>
      (\<exists>cp. couponFor data d = Some cp \<and> (\<forall>i. \<not> applicable (now (env i)) cp))"
  proof (cases "code = []")
    case True
    with assms(6) show ?thesis by (simp add: couponFor_def)
  next
    case False
    with assms(6) have "couponFor data d = coupons d code" by (simp add: couponFor_def)
    with assms(7) show ?thesis by (auto simp: applicable_def not_less)
  qed
  have res: "createOrder uid data env d =
           (Inr (orderResult rows),
            (clearCart uid d)\<lparr>orders := orders d @ rows,
               orderItems := orderItems d @ expectedItems env 0 ?gs\<rparr>)"
    unfolding rows_def
    by (simp add: createOrder_valid [OF assms(1-4)]
          processGroups_plain [OF assms(5) never] clearCart_rows)
  have "coupons (snd (createOrder uid data env d)) = coupons d"
    by (simp add: res clearCart_sel)
  moreover have "length rows = card (storeOf d ` set (items c))"
    by (simp add: rows_def expectedRows_length cartGroups_length)
  moreover have "map storeId rows = storesIn d (items c) []"
    by (simp add: rows_def expectedRows_storeIds cartGroups_keys)
  moreover have "map total rows = map (groupTotal d (items c)) (storesIn d (items c) [])"
    using cartGroups_map_totals [of id d "items c"]
    by (simp add: rows_def expectedRows_totals)
  moreover have "list_all (\<lambda>row. isCouponUsed row = False \<and> coupon row = None) rows"
    using expectedRows_used [of False data uid env id 0 ?gs] by (simp add: rows_def)
  ultimately show ?thesis using res by blast
qed

section \<open>A coupon applied to every store group\<close>

text \<open>
  C7.  For a valid cart whose items span \<open>N\<close> stores, a request naming a coupon that is
  active, unexpired at each of the \<open>N\<close> groups, and unlimited or with at least \<open>N\<close> uses
  left, when no write is rejected: \<open>createOrder\<close> succeeds, the order of each store has
  the coupon applied to that store's own subtotal, and the coupon's usage counter has
  grown by \<open>N\<close>, once per group.
\<close>

theorem coupon_counted_once_per_group:
  assumes "users d uid = Some u" and "cart u = Some c" and "items c \<noteq> []"
    and "\<forall>it\<in>set (items c). \<not> badItem d it"
    and "\<forall>i. failingWrite (env i) = None"
    and "couponCode data = Some code" and "code \<noteq> []"
    and "coupons d code = Some cp" and "isActive cp"
    and "\<forall>i<card (storeOf d ` set (items c)). now (env i) < expiresAt cp"
    and "usageLimit cp \<le> 0 \<or>
         usageCount cp + int (card (storeOf d ` set (items c))) \<le> usageLimit cp"
  defines "rows \<equiv> expectedRows uid data env (discounted cp) True 0 (cartGroups d (items c))"
  shows "fst (createOrder uid data env d) = Inr (orderResult rows) \<and>
         orders (snd (createOrder uid data env d)) = orders d @ rows \<and>
         length rows = card (storeOf d ` set (items c)) \<and>
         map storeId rows = storesIn d (items c) [] \<and>
         map total rows =
           map (\<lambda>sid. discounted cp (groupTotal d (items c) sid)) (storesIn d (items c) []) \<and>
         list_all (\<lambda>row. isCouponUsed row = True \<and> coupon row = Some code) rows \<and>
         coupons (snd (createOrder uid data env d)) code =
           Some (cp\<lparr>usageCount := usageCount cp + int (card (storeOf d ` set (items c)))\<rparr>)"
proof -
  let ?gs = "cartGroups d (items c)"
  let ?n = "card (storeOf d ` set (items c))"
  have len: "length ?gs = ?n" by (rule cartGroups_length)
  have cf: "couponFor data d = Some cp" using assms(6-8) by (simp add: couponFor_def)
  have exp: "\<forall>i<length ?gs. now (env (0 + i)) < expiresAt cp" using assms(10) len by simp
  have lim: "usageLimit cp \<le> 0 \<or> usageCount cp + int (length ?gs) \<le> usageLimit cp"
    using assms(11) len by simp
  note pg = processGroups_applied [OF assms(5) cf assms(9) exp lim, of uid "[]"]
  have res: "createOrder uid data env d =
           (Inr (orderResult rows),
            clearCart uid ((bumpUsage data (int ?n) d)\<lparr>orders := orders d @ rows,
               orderItems := orderItems d @ expectedItems env 0 ?gs\<rparr>))"
    unfolding rows_def using pg len
    by (simp add: createOrder_valid [OF assms(1-4)])
  have "coupons (snd (createOrder uid data env d)) code =
           Some (cp\<lparr>usageCount := usageCount cp + int ?n\<rparr>)"
    using assms(6,8) by (simp add: res clearCart_sel bumpUsage_def)
  moreover have "orders (snd (createOrder uid data env d)) = orders d @ rows"
    by (simp add: res clearCart_sel)
  moreover have "length rows = ?n"
    by (simp add: rows_def expectedRows_length cartGroups_length)
  moreover have "map storeId rows = storesIn d (items c) []"
    by (simp add: rows_def expectedRows_storeIds cartGroups_keys)
  moreover have "map total rows =
           map (\<lambda>sid. discounted cp (groupTotal d (items c) sid)) (storesIn d (items c) [])"
    using cartGroups_map_totals [of "discounted cp" d "items c"]
    by (simp add: rows_def expectedRows_totals)
  moreover have "list_all (\<lambda>row. isCouponUsed row = True \<and> coupon row = Some code) rows"
    using expectedRows_used [of True data uid env "discounted cp" 0 ?gs] assms(6)
    by (simp add: rows_def)
  ultimately show ?thesis using res by simp
qed

text \<open>
  The theorem at the scenario of the specification: two \<open>pA\<close> at 100 from store \<open>S1\<close> and
  one \<open>pB\<close> at 50 from store \<open>S2\<close>, coupon \<open>SAVE10\<close> of 10 percent; two orders of
  totals 180 and 45, and the usage counter raised from 0 to 2.
\<close>

theorem coupon_counted_once_per_group_witness:
  "users db2 ''u1'' = Some \<lparr>role = USER, cart = Some cartAB\<rparr> \<and>
   list_all (\<lambda>it. \<not> badItem db2 it) (items cartAB) \<and>
   coupons db2 ''SAVE10'' = Some save10 \<and> usageCount save10 = 0 \<and>
   fst (createOrder ''u1'' req10 env0 db2) = Inr (Many [order180, order45]) \<and>
   orders (snd (createOrder ''u1'' req10 env0 db2)) = [order180, order45] \<and>
   map storeId [order180, order45] = [''S1'', ''S2''] \<and>
   map total [order180, order45] = [Finite 180, Finite 45] \<and>
   coupons (snd (createOrder ''u1'' req10 env0 db2)) ''SAVE10'' = Some (save10\<lparr>usageCount := 2\<rparr>)"
proof -
  have h6: "couponCode req10 = Some ''SAVE10''" and h7: "''SAVE10'' \<noteq> []"
    by (simp_all add: req10_def)
  have cp: "coupons db2 ''SAVE10'' = Some save10" by (simp add: db2_def)
  have act: "isActive save10" and cnt: "usageCount save10 = 0"
    by (simp_all add: save10_def)
  have exp: "\<forall>i<card (storeOf db2 ` set (items cartAB)). now (env0 i) < expiresAt save10"
    by (simp add: card_cartAB2 env0_def save10_def)
  have lim: "usageLimit save10 \<le> 0 \<or>
         usageCount save10 + int (card (storeOf db2 ` set (items cartAB))) \<le> usageLimit save10"
    by (simp add: save10_def)
  have rows: "expectedRows ''u1'' req10 env0 (discounted save10) True 0 (cartGroups db2 (items cartAB)) =
                [order180, order45]"
    by (simp add: cartGroups_def stores_cartAB2 storeTotal_groupOf groupTotals_cartAB2
          newOrderRow_def env0_def req10_def order180_def order45_def makeOrderNumber_def
          showNat_values discounted_def save10_def scenario_percent)
  have os: "orders db2 = []" by (simp add: db2_def)
  note T = coupon_counted_once_per_group
    [OF u1_db2 cart_u1 cartAB_items_ne cartAB_ball2 env0_nofail h6 h7 cp act exp lim,
     unfolded rows]
  from T have "fst (createOrder ''u1'' req10 env0 db2) = Inr (orderResult [order180, order45])"
    by (rule conjunct1)
  moreover from T
  have "orders (snd (createOrder ''u1'' req10 env0 db2)) = orders db2 @ [order180, order45]"
    by blast
  moreover from T
  have "coupons (snd (createOrder ''u1'' req10 env0 db2)) ''SAVE10'' =
           Some (save10\<lparr>usageCount := usageCount save10 + int (card (storeOf db2 ` set (items cartAB)))\<rparr>)"
    by blast
  ultimately show ?thesis using u1_db2 cartAB_good2 cp cnt os
    by (simp add: orderResult_def card_cartAB2 order180_def order45_def)
qed

section \<open>A coupon that cannot be used\<close>

text \<open>
  C10.  For a valid cart and when no write is rejected: if the request names a code that
  matches no coupon, or a coupon that is inactive or expired at every clock reading of
  the checkout, \<open>createOrder\<close> succeeds, every order has the full subtotal of its store
  as its total, \<open>isCouponUsed\<close> false and no coupon, and the coupon table is unchanged.
  And if \<open>createOrder\<close> fails at all, it fails with "Coupon usage limit exceeded" and
  the coupon the request names is then active, unexpired at some group, and used up.
\<close>

theorem unusable_coupon_is_ignored:
  fixes data :: CreateOrderRequest
  assumes "users d uid = Some u" and "cart u = Some c" and "items c \<noteq> []"
    and "\<forall>it\<in>set (items c). \<not> badItem d it"
    and "\<forall>i. failingWrite (env i) = None"
  defines "rows \<equiv> expectedRows uid data env id False 0 (cartGroups d (items c))"
  shows "(couponCode data = Some code \<and>
          (coupons d code = None \<or>
           (\<exists>cp. coupons d code = Some cp \<and>
                 (\<not> isActive cp \<or> (\<forall>i. expiresAt cp \<le> now (env i))))) \<longrightarrow>
            createOrder uid data env d =
              (Inr (orderResult rows),
               (clearCart uid d)\<lparr>orders := orders d @ rows,
                  orderItems := orderItems d @ expectedItems env 0 (cartGroups d (items c))\<rparr>) \<and>
            length rows = card (storeOf d ` set (items c)) \<and>
            map storeId rows = storesIn d (items c) [] \<and>
            map total rows = map (groupTotal d (items c)) (storesIn d (items c) []) \<and>
            list_all (\<lambda>row. isCouponUsed row = False \<and> coupon row = None) rows \<and>
            coupons (snd (createOrder uid data env d)) = coupons d) \<and>
         (isl (fst (createOrder uid data env d)) \<longrightarrow>
            fst (createOrder uid data env d) = Inl limitExceeded \<and>
            (\<exists>cp i. couponFor data (snd (createOrder uid data env d)) = Some cp \<and>
                    isActive cp \<and> now (env i) < expiresAt cp \<and>
                    0 < usageLimit cp \<and> usageLimit cp \<le> usageCount cp))"
  unfolding rows_def
  using unusable_coupon_plain [OF assms(1-5), of data code]
    createOrder_valid_failure [OF assms(1-5), of data]
  unfolding applicable_def exhausted_def
  by blast

lemma u4_db5: "users db5 ''u4'' = Some \<lparr>role = USER, cart = Some cartDimes\<rparr>"
  by (simp add: db5_def)

lemma cart_u4: "cart \<lparr>role = USER, cart = Some cartDimes\<rparr> = Some cartDimes"
  by simp

lemma cartDimes_items_ne: "items cartDimes \<noteq> []"
  by (simp add: cartDimes_def)

lemma cartDimes_good5: "list_all (\<lambda>it. \<not> badItem db5 it) (items cartDimes)"
  by (simp add: cartDimes_def badItem_def db5_def)

lemma cartDimes_ball5: "\<forall>it\<in>set (items cartDimes). \<not> badItem db5 it"
  using cartDimes_good5 by (simp add: list_all_iff)

lemma stores_cartDimes5: "storesIn db5 (items cartDimes) [] = [''S4'']"
  by (simp add: cartDimes_def storeOf_def db5_def)

lemma groupTotal_cartDimes5:
  "groupTotal db5 (items cartDimes) ''S4'' = Finite (1351079888211149 / 4503599627370496)"
  by (simp add: groupTotal_def cartDimes_def storeOf_def db5_def binary64_examples)

text \<open>
  The theorem at the request with the expired coupon \<open>OLD20\<close>: for the cart of \<open>u1\<close> it
  yields the two orders at full price, 200 and 50; for the cart of \<open>u4\<close>, three \<open>pD\<close> at
  \<open>0.1\<close>, it yields one order whose total is the number \<open>0.30000000000000004\<close> that the
  source adds up.  For the second part, the request with the used-up coupon \<open>GONE50\<close>.
\<close>

theorem unusable_coupon_is_ignored_witness:
  "users db2 ''u1'' = Some \<lparr>role = USER, cart = Some cartAB\<rparr> \<and>
   list_all (\<lambda>it. \<not> badItem db2 it) (items cartAB) \<and>
   coupons db2 ''OLD20'' = Some old20 \<and> expiresAt old20 = 1600000000000 \<and>
   fst (createOrder ''u1'' reqOld env0 db2) = Inr (Many [order200, order50]) \<and>
   orders (snd (createOrder ''u1'' reqOld env0 db2)) = [order200, order50] \<and>
   map total [order200, order50] = [Finite 200, Finite 50] \<and>
   coupons (snd (createOrder ''u1'' reqOld env0 db2)) = coupons db2 \<and>
   users db5 ''u4'' = Some \<lparr>role = USER, cart = Some cartDimes\<rparr> \<and>
   list_all (\<lambda>it. \<not> badItem db5 it) (items cartDimes) \<and>
   coupons db5 ''OLD20'' = Some old20 \<and>
   fst (createOrder ''u4'' reqOld env0 db5) = Inr (Single orderDimes) \<and>
   orders (snd (createOrder ''u4'' reqOld env0 db5)) = [orderDimes] \<and>
   total orderDimes = groupTotal db5 (items cartDimes) ''S4'' \<and>
   total orderDimes = Finite (1351079888211149 / 4503599627370496) \<and>
   isl (fst (createOrder ''u1'' reqGone env0 db2)) \<and>
   fst (createOrder ''u1'' reqGone env0 db2) = Inl limitExceeded"
proof -
  have h6: "couponCode reqOld = Some ''OLD20''" by (simp add: reqOld_def)
  have cp: "coupons db2 ''OLD20'' = Some old20" and cp5: "coupons db5 ''OLD20'' = Some old20"
    by (simp_all add: db2_def db5_def)
  have ex: "expiresAt old20 = 1600000000000" by (simp add: old20_def)
  have h7: "coupons db2 ''OLD20'' = None \<or>
         (\<exists>cp. coupons db2 ''OLD20'' = Some cp \<and>
            (\<not> isActive cp \<or> (\<forall>i. expiresAt cp \<le> now (env0 i))))"
    using cp ex by (simp add: env0_def)
  have h8: "coupons db5 ''OLD20'' = None \<or>
         (\<exists>cp. coupons db5 ''OLD20'' = Some cp \<and>
            (\<not> isActive cp \<or> (\<forall>i. expiresAt cp \<le> now (env0 i))))"
    using cp5 ex by (simp add: env0_def)
  have rows: "expectedRows ''u1'' reqOld env0 id False 0 (cartGroups db2 (items cartAB)) =
                [order200, order50]"
    by (simp add: cartGroups_def stores_cartAB2 storeTotal_groupOf
          groupTotals_cartAB2
          newOrderRow_def env0_def reqOld_def order200_def order50_def makeOrderNumber_def
          showNat_values)
  have rows5: "expectedRows ''u4'' reqOld env0 id False 0 (cartGroups db5 (items cartDimes)) =
                [orderDimes]"
    by (simp add: cartGroups_def stores_cartDimes5 storeTotal_groupOf groupTotal_cartDimes5
          newOrderRow_def env0_def reqOld_def orderDimes_def makeOrderNumber_def
          showNat_values)
  have os: "orders db2 = []" "orders db5 = []" by (simp_all add: db2_def db5_def)
  have fails: "isl (fst (createOrder ''u1'' reqGone env0 db2))"
    by (simp add: checkout_eval scenario_defs)
  note T = unusable_coupon_is_ignored
    [OF u1_db2 cart_u1 cartAB_items_ne cartAB_ball2 env0_nofail,
     where data = reqOld and code = "''OLD20''", unfolded rows]
  note T5 = unusable_coupon_is_ignored
    [OF u4_db5 cart_u4 cartDimes_items_ne cartDimes_ball5 env0_nofail,
     where data = reqOld and code = "''OLD20''", unfolded rows5]
  note G = unusable_coupon_is_ignored
    [OF u1_db2 cart_u1 cartAB_items_ne cartAB_ball2 env0_nofail,
     where data = reqGone and code = "''GONE50''", THEN conjunct2]
  from T h6 h7 have "createOrder ''u1'' reqOld env0 db2 =
          (Inr (orderResult [order200, order50]),
           (clearCart ''u1'' db2)\<lparr>orders := orders db2 @ [order200, order50],
              orderItems := orderItems db2 @ expectedItems env0 0 (cartGroups db2 (items cartAB))\<rparr>)"
    by blast
  moreover from T h6 h7 have "coupons (snd (createOrder ''u1'' reqOld env0 db2)) = coupons db2"
    by blast
  moreover from T5 h6 h8 have "createOrder ''u4'' reqOld env0 db5 =
          (Inr (orderResult [orderDimes]),
           (clearCart ''u4'' db5)\<lparr>orders := orders db5 @ [orderDimes],
              orderItems := orderItems db5 @ expectedItems env0 0 (cartGroups db5 (items cartDimes))\<rparr>)"
    by blast
  moreover from T5 h6 h8
  have "map total [orderDimes] = map (groupTotal db5 (items cartDimes)) (storesIn db5 (items cartDimes) [])"
    by blast
  moreover from G fails have "fst (createOrder ''u1'' reqGone env0 db2) = Inl limitExceeded"
    by blast
  moreover have "total orderDimes = Finite (1351079888211149 / 4503599627370496)"
    "map total [order200, order50] = [Finite 200, Finite 50]"
    by (simp_all add: orderDimes_def order200_def order50_def)
  ultimately show ?thesis using u1_db2 cartAB_good2 cp cp5 ex os fails u4_db5 cartDimes_good5
    by (simp add: orderResult_def stores_cartDimes5)
qed

section \<open>A coupon whose usage limit is reached\<close>

lemma groupByStore_Inr_good:
  assumes "groupByStore d its [] = Inr gs"
  shows "\<forall>it\<in>set its. \<not> badItem d it"
proof (rule ccontr)
  assume "\<not> (\<forall>it\<in>set its. \<not> badItem d it)"
  then obtain first where "find (badItem d) its = Some first"
    by (cases "find (badItem d) its") (auto simp: find_None_iff)
  from groupByStore_bad [OF this, of "[]"] assms show False by auto
qed

lemma createOrder_withinLimits:
  assumes "withinLimits d"
  shows "withinLimits (snd (createOrder uid data env d))"
proof (cases "users d uid")
  case None
  with assms show ?thesis by (simp add: createOrder_def)
next
  case (Some u)
  let ?c = "case cart u of None \<Rightarrow> emptyCart | Some c \<Rightarrow> c"
  show ?thesis
  proof (cases "items ?c = []")
    case True
    with assms Some show ?thesis by (simp add: createOrder_def)
  next
    case False
    show ?thesis
    proof (cases "groupByStore d (items ?c) []")
      case (Inl err)
      with assms Some False show ?thesis by (simp add: createOrder_def)
    next
      case (Inr gs)
      obtain r1 d1 where pg: "processGroups uid data env 0 gs [] d = (r1, d1)"
        by (cases "processGroups uid data env 0 gs [] d")
      from processGroups_withinLimits [OF pg assms] have wl: "withinLimits d1" .
      have "withinLimits (clearCart uid d1) = withinLimits d1"
        by (rule withinLimits_same) (simp add: clearCart_sel)
      with wl Some False Inr pg show ?thesis
        by (cases r1) (simp_all add: createOrder_def)
    qed
  qed
qed

lemma runCheckouts_withinLimits:
  "withinLimits d \<Longrightarrow> withinLimits (runCheckouts calls d)"
proof (induction calls arbitrary: d)
  case Nil
  then show ?case by simp
next
  case (Cons a calls)
  obtain uid data env where a: "a = (uid, data, env)" by (cases a)
  from Cons.IH [OF createOrder_withinLimits [OF Cons.prems, of uid data env]]
  show ?case by (simp add: a)
qed

lemma createOrder_exhausted:
  assumes "couponFor data d = Some cp" and "applicable (now (env 0)) cp" and "exhausted cp"
  shows "isl (fst (createOrder uid data env d)) \<and> snd (createOrder uid data env d) = d \<and>
         (users d uid = Some u \<and> cart u = Some c \<and> items c \<noteq> [] \<and>
          (\<forall>it\<in>set (items c). \<not> badItem d it) \<longrightarrow>
            fst (createOrder uid data env d) = Inl limitExceeded)"
proof -
  have valid: "fst (createOrder uid data env d) = Inl limitExceeded \<and>
               snd (createOrder uid data env d) = d"
    if v: "users d uid = Some u" "cart u = Some c" "items c \<noteq> []"
      "\<forall>it\<in>set (items c). \<not> badItem d it" for u c
  proof -
    from cartGroups_nonempty [OF v(3), of d] obtain sid g gs
      where gs: "cartGroups d (items c) = (sid, g) # gs"
      by (cases "cartGroups d (items c)") auto
    have "processGroups uid data env 0 (cartGroups d (items c)) [] d = (Inl limitExceeded, d)"
      by (simp add: gs processGroup_exhausted [OF assms])
    then show ?thesis by (simp add: createOrder_valid [OF v])
  qed
  have "isl (fst (createOrder uid data env d)) \<and> snd (createOrder uid data env d) = d"
  proof (cases "users d uid")
    case None
    then show ?thesis by (simp add: createOrder_def)
  next
    case (Some u)
    show ?thesis
    proof (cases "cart u")
      case None
      with Some show ?thesis by (simp add: createOrder_def emptyCart_def)
    next
      case c: (Some c)
      show ?thesis
      proof (cases "items c = []")
        case True
        with Some c show ?thesis by (simp add: createOrder_def)
      next
        case False
        show ?thesis
        proof (cases "groupByStore d (items c) []")
          case (Inl err)
          with Some c False show ?thesis by (simp add: createOrder_def)
        next
          case (Inr gs)
          from valid [OF Some c False groupByStore_Inr_good [OF Inr]]
          show ?thesis by simp
        qed
      qed
    qed
  qed
  with valid show ?thesis by blast
qed

text \<open>
  C4.  When the request names a coupon that is active and unexpired at the first group,
  with a positive usage limit that its usage count has reached or passed, \<open>createOrder\<close>
  fails and returns the store unchanged: no order is made, no discount applied, the
  usage counter not incremented.  For an existing user with a valid, non-empty cart the
  error is "Coupon usage limit exceeded" with status 400.  And \<open>createOrder\<close>, whatever
  its outcome, keeps every coupon with a positive limit at a usage count within its
  limit; so does any sequence of checkouts.
\<close>

theorem exhausted_coupon_is_rejected:
  assumes "couponCode data = Some code" and "code \<noteq> []" and "coupons d code = Some cp"
    and "isActive cp" and "now (env 0) < expiresAt cp"
    and "0 < usageLimit cp" and "usageLimit cp \<le> usageCount cp"
  shows "isl (fst (createOrder uid data env d)) \<and>
         snd (createOrder uid data env d) = d \<and>
         (users d uid = Some u \<and> cart u = Some c \<and> items c \<noteq> [] \<and>
          (\<forall>it\<in>set (items c). \<not> badItem d it) \<longrightarrow>
            fst (createOrder uid data env d) = Inl (AppError ''Coupon usage limit exceeded'' 400)) \<and>
         InvalidState (AppError ''Coupon usage limit exceeded'' 400) \<and>
         (withinLimits d' \<longrightarrow> withinLimits (snd (createOrder uid' data' env' d'))) \<and>
         (withinLimits d' \<longrightarrow> withinLimits (runCheckouts calls d'))"
proof -
  have cf: "couponFor data d = Some cp" using assms(1-3) by (simp add: couponFor_def)
  have app: "applicable (now (env 0)) cp" using assms(4,5) by (simp add: applicable_def)
  have ex: "exhausted cp" using assms(6,7) by (simp add: exhausted_def)
  from createOrder_exhausted [where env = env and uid = uid and u = u and c = c, OF cf app ex]
    createOrder_withinLimits [of d' uid' data' env'] runCheckouts_withinLimits [of d' calls]
  show ?thesis by (simp add: limitExceeded_def)
qed

text \<open>
  The theorem at the checkout of \<open>u1\<close> with the coupon \<open>GONE50\<close>, whose single use is
  taken, and, for the invariant, at a checkout with \<open>SAVE10\<close> followed by that one.
\<close>

lemma withinLimits_db2: "withinLimits db2"
  by (auto simp: withinLimits_def db2_def save10_def gone50_def old20_def split: if_splits)

theorem exhausted_coupon_is_rejected_witness:
  "coupons db2 ''GONE50'' = Some gone50 \<and> usageLimit gone50 = 1 \<and> usageCount gone50 = 1 \<and>
   users db2 ''u1'' = Some \<lparr>role = USER, cart = Some cartAB\<rparr> \<and>
   list_all (\<lambda>it. \<not> badItem db2 it) (items cartAB) \<and>
   createOrder ''u1'' reqGone env0 db2 =
     (Inl (AppError ''Coupon usage limit exceeded'' 400), db2) \<and>
   withinLimits db2 \<and>
   withinLimits (runCheckouts [(''u1'', req10, env0), (''u1'', reqGone, env0)] db2)"
proof -
  have h: "couponCode reqGone = Some ''GONE50''" "''GONE50'' \<noteq> []"
    "coupons db2 ''GONE50'' = Some gone50" "isActive gone50" "now (env0 0) < expiresAt gone50"
    "0 < usageLimit gone50" "usageLimit gone50 \<le> usageCount gone50"
    by (simp_all add: reqGone_def db2_def gone50_def env0_def)
  have g: "usageLimit gone50 = 1" "usageCount gone50 = 1" by (simp_all add: gone50_def)
  note T = exhausted_coupon_is_rejected
    [where env = env0 and uid = "''u1''" and u = "\<lparr>role = USER, cart = Some cartAB\<rparr>"
       and c = cartAB and d' = db2
       and calls = "[(''u1'', req10, env0), (''u1'', reqGone, env0)]", OF h]
  from T u1_db2 cart_u1 cartAB_items_ne cartAB_ball2
  have "fst (createOrder ''u1'' reqGone env0 db2) = Inl (AppError ''Coupon usage limit exceeded'' 400)"
    by blast
  moreover from T have "snd (createOrder ''u1'' reqGone env0 db2) = db2" by blast
  ultimately have "createOrder ''u1'' reqGone env0 db2 =
     (Inl (AppError ''Coupon usage limit exceeded'' 400), db2)"
    by (simp add: prod_eq_iff)
  moreover from T withinLimits_db2
  have "withinLimits (runCheckouts [(''u1'', req10, env0), (''u1'', reqGone, env0)] db2)"
    by blast
  ultimately show ?thesis using h(3) g u1_db2 cartAB_good2 withinLimits_db2 by simp
qed

section \<open>Order numbers\<close>














section \<open>The transaction of a store group\<close>

lemma createOrderItems_orders:
  "orders (snd (createOrderItems fw n oid its tx)) = orders tx"
  by (induction its arbitrary: n tx) simp_all

lemma orderTx_orders:
  "0 < j \<Longrightarrow> orders (snd (orderTx (Some j) row its tx)) = orders tx @ [row]"
  using createOrderItems_orders [of "Some j" 1 "o_id row" its "tx\<lparr>orders := orders tx @ [row]\<rparr>"]
  by (auto simp: orderTx_def split: prod.splits sum.splits)

lemma applyCoupon_Inr:
  assumes "applyCoupon data t s d = (Inr (ft, used), d')"
  shows "orders d' = orders d \<and> orderItems d' = orderItems d \<and> users d' = users d \<and>
         (used \<longrightarrow> (\<exists>cp. couponFor data d = Some cp \<and>
                        couponFor data d' = Some (cp\<lparr>usageCount := usageCount cp + 1\<rparr>)))"
proof (cases "couponFor data d")
  case None
  with assms applyCoupon_none [OF None, of t s] show ?thesis by simp
next
  case (Some cp)
  show ?thesis
  proof (cases "applicable t cp")
    case False
    with assms applyCoupon_inapplicable [OF Some False, of s] show ?thesis by simp
  next
    case True
    show ?thesis
    proof (cases "exhausted cp")
      case ex: True
      with assms applyCoupon_exhausted [OF Some True ex, of s] show ?thesis by simp
    next
      case nex: False
      with assms applyCoupon_applied [OF Some True nex, of s]
      have "d' = bumpUsage data 1 d" by simp
      with Some couponFor_bumpUsage [OF Some, of 1] show ?thesis by simp
    qed
  qed
qed

text \<open>
  C9.  Take a valid cart whose groups are \<open>gs1\<close>, then the group \<open>g\<close> of store \<open>sid\<close>,
  then \<open>gs2\<close>.  Suppose the groups \<open>gs1\<close> are processed with success, giving the orders
  \<open>os1\<close>, that the coupon block of \<open>g\<close> passes (applying the coupon or not), and that
  the store rejects write \<open>j\<close> of the transaction of \<open>g\<close>: the order row (\<open>j = 0\<close>) or one
  of the order items.  Then \<open>createOrder\<close> fails with the store's error, and the store it
  leaves is the one the coupon block produced: it holds the orders \<open>os1\<close> of the earlier
  groups and their order items, no row of \<open>g\<close> (although, for \<open>0 < j\<close>, the body of
  the transaction had inserted the order row before the rejected write), the coupon's
  usage counter incremented for \<open>g\<close> when the coupon was applied, and the cart as it was.
\<close>

theorem group_transaction_is_atomic:
  assumes "users d uid = Some u" and "cart u = Some c" and "items c \<noteq> []"
    and "\<forall>it\<in>set (items c). \<not> badItem d it"
    and "cartGroups d (items c) = gs1 @ (sid, g) # gs2"
    and "processGroups uid data env 0 gs1 [] d = (Inr os1, dA)"
    and "applyCoupon data (now (env (length gs1))) (storeTotal g) dA = (Inr (ft, used), dB)"
    and "failingWrite (env (length gs1)) = Some j" and "j \<le> length g"
  shows "createOrder uid data env d = (Inl PrismaError, dB) \<and>
         orders dB = orders d @ os1 \<and> length os1 = length gs1 \<and>
         orderItems dB = orderItems d @ itemsFor gs1 os1 \<and> users dB = users d \<and>
         (used \<longrightarrow> (\<exists>cp. couponFor data dA = Some cp \<and>
                        couponFor data dB = Some (cp\<lparr>usageCount := usageCount cp + 1\<rparr>))) \<and>
         (0 < j \<longrightarrow>
            orders (snd (orderTx (Some j)
                           (newOrderRow uid data (env (length gs1)) sid ft used) g dB)) =
              orders dB @ [newOrderRow uid data (env (length gs1)) sid ft used])"
proof -
  let ?e = "env (length gs1)"
  let ?row = "newOrderRow uid data ?e sid ft used"
  have pgrp: "processGroup uid data ?e sid g dA = (Inl PrismaError, dB)"
    by (simp add: processGroup_def assms(7,8) transaction_orderTx_fail [OF assms(9)])
  have "processGroups uid data env 0 (gs1 @ (sid, g) # gs2) [] d = (Inl PrismaError, dB)"
    by (simp add: processGroups_append assms(6) pgrp)
  then have res: "createOrder uid data env d = (Inl PrismaError, dB)"
    by (simp add: createOrder_valid [OF assms(1-4)] assms(5))
  from processGroups_success [OF assms(6)] obtain rows where
    rows: "os1 = rows" "rowsFor uid data (discountOf data d) env 0 gs1 rows"
      "orders dA = orders d @ rows" "orderItems dA = orderItems d @ itemsFor gs1 rows" by auto
  from rowsFor_length [OF rows(2)] rows(1) have len: "length os1 = length gs1" by simp
  from processGroups_frame [OF assms(6)] have us: "users dA = users d" by simp
  from applyCoupon_Inr [OF assms(7)] rows(1,3,4) us len res orderTx_orders [of j ?row g dB]
  show ?thesis by simp
qed

lemma groups_cartAB2: "cartGroups db2 (items cartAB) = [(''S1'', groupA)] @ (''S2'', groupB) # []"
  by (simp add: cartGroups_def stores_cartAB2 groupOf_def cartAB_def storeOf_def db2_def
        tagged_def groupA_def groupB_def)

text \<open>
  The theorem at the two-store checkout of \<open>u1\<close> with \<open>SAVE10\<close> under \<open>envFail\<close>, where
  the store rejects the order item of the second group: the call fails, the order and
  the order item of store \<open>S1\<close> persist, nothing of store \<open>S2\<close> is written, the usage
  counter stands at 2, and the cart is not cleared.
\<close>

theorem group_transaction_is_atomic_witness:
  "users db2 ''u1'' = Some \<lparr>role = USER, cart = Some cartAB\<rparr> \<and>
   list_all (\<lambda>it. \<not> badItem db2 it) (items cartAB) \<and>
   failingWrite (envFail 1) = Some 1 \<and>
   fst (createOrder ''u1'' req10 envFail db2) = Inl PrismaError \<and>
   orders (snd (createOrder ''u1'' req10 envFail db2)) = [order180] \<and>
   orderItems (snd (createOrder ''u1'' req10 envFail db2)) =
     [\<lparr>orderId = ''o0'', oi_productId = ''pA'', oi_quantity = 2, oi_price = Finite 100\<rparr>] \<and>
   coupons (snd (createOrder ''u1'' req10 envFail db2)) ''SAVE10'' =
     Some (save10\<lparr>usageCount := 2\<rparr>) \<and>
   users (snd (createOrder ''u1'' req10 envFail db2)) = users db2"
proof -
  let ?gs1 = "[(''S1'', groupA)]"
  let ?pg = "processGroups ''u1'' req10 envFail 0 ?gs1 [] db2"
  let ?ac = "applyCoupon req10 (now (envFail (length ?gs1))) (storeTotal groupB) (snd ?pg)"
  have "fst ?pg = Inr [order180]" by (simp add: checkout_eval scenario_defs)
  then have h6: "?pg = (Inr [order180], snd ?pg)" by (simp add: prod_eq_iff)
  have "fst ?ac = Inr (Finite 45, True)" by (simp add: checkout_eval scenario_defs)
  then have h7: "?ac = (Inr (Finite 45, True), snd ?ac)" by (simp add: prod_eq_iff)
  have h8: "failingWrite (envFail (length ?gs1)) = Some 1" by (simp add: envFail_def)
  have h9: "1 \<le> length groupB" by (simp add: groupB_def)
  note T = group_transaction_is_atomic
    [where env = envFail,
     OF u1_db2 cart_u1 cartAB_items_ne cartAB_ball2 groups_cartAB2 h6 h7 h8 h9]
  from T have res: "createOrder ''u1'' req10 envFail db2 = (Inl PrismaError, snd ?ac)"
    by (rule conjunct1)
  from T have us: "users (snd ?ac) = users db2" by blast
  from T have os: "orders (snd ?ac) = orders db2 @ [order180]" by blast
  have ois: "orderItems (snd ?ac) =
     [\<lparr>orderId = ''o0'', oi_productId = ''pA'', oi_quantity = 2, oi_price = Finite 100\<rparr>]"
    by (simp add: checkout_eval scenario_defs)
  have cs: "coupons (snd ?ac) ''SAVE10'' = Some (save10\<lparr>usageCount := 2\<rparr>)"
    by (simp add: checkout_eval scenario_defs)
  have "orders db2 = []" by (simp add: db2_def)
  with res us os ois cs u1_db2 cartAB_good2 show ?thesis
    by (simp add: envFail_def)
qed

section \<open>The discount of a coupon\<close>











end
